theory Spec2Isabelle
  imports Main "HOL-Library.Log_Nat"
begin

section \<open>JavaScript numbers\<close>

text \<open>
  The handler of \<^verbatim>\<open>GET /recipes/suggestions\<close> (backend/src/routes/recipes.ts) computes
  its score with JavaScript numbers, which are IEEE 754 binary64 values. A finite number
  is modelled by the rational it denotes; every arithmetic operation computes the exact
  result and rounds it to the nearest value with a 53 bit significand, ties to even
  (\<open>rnd\<close>). The exponent range is not bounded in \<open>rnd\<close>: the handler only divides
  array lengths (below \<open>2 ^ 32\<close>, hence exact doubles), multiplies by 100 and subtracts
  two such scores, so that every nonzero intermediate value has a magnitude between
  \<open>2 powi (- 90)\<close> and 100, far inside the normal range of binary64, where neither
  overflow nor gradual underflow occurs. Signed zero is not distinguished.
\<close>

datatype jsnum = Fin rat | PosInf | NegInf | NaN

definition ilog2 :: "rat \<Rightarrow> int" where
  \<comment> \<open>for \<open>0 < x\<close>: the exponent \<open>k\<close> with \<open>2 powi k \<le> x < 2 powi (k + 1)\<close>\<close>
  "ilog2 x = (let (p, q) = quotient_of x; k = bitlen p - bitlen q
              in if 2 powi k \<le> x then k else k - 1)"

definition round_even :: "rat \<Rightarrow> int" where
  \<comment> \<open>nearest integer, ties to the even one\<close>
  "round_even y = (let f = \<lfloor>y\<rfloor>; d = y - of_int f
                   in if d < 1 / 2 then f else if 1 / 2 < d then f + 1
                      else if even f then f else f + 1)"

definition rnd_pos :: "rat \<Rightarrow> rat" where
  "rnd_pos x = (let e = ilog2 x - 52 in of_int (round_even (x / 2 powi e)) * 2 powi e)"

definition rnd :: "rat \<Rightarrow> rat" where
  "rnd x = (if x = 0 then 0 else if x < 0 then - rnd_pos (- x) else rnd_pos x)"

definition js_div_length :: "nat \<Rightarrow> nat \<Rightarrow> jsnum" where
  \<comment> \<open>\<^verbatim>\<open>a / b\<close> for two array lengths: \<^verbatim>\<open>0 / 0\<close> is NaN, \<^verbatim>\<open>a / 0\<close> is Infinity\<close>
  "js_div_length a b =
     (if b = 0 then (if a = 0 then NaN else PosInf) else Fin (rnd (of_nat a / of_nat b)))"

fun js_times :: "jsnum \<Rightarrow> rat \<Rightarrow> jsnum" where
  \<comment> \<open>\<^verbatim>\<open>x * c\<close> for a finite constant \<open>c\<close>\<close>
  "js_times (Fin a) c = Fin (rnd (a * c))"
| "js_times NaN c = NaN"
| "js_times PosInf c = (if c = 0 then NaN else if 0 < c then PosInf else NegInf)"
| "js_times NegInf c = (if c = 0 then NaN else if 0 < c then NegInf else PosInf)"

fun js_sub :: "jsnum \<Rightarrow> jsnum \<Rightarrow> jsnum" where
  "js_sub (Fin a) (Fin b) = Fin (rnd (a - b))"
| "js_sub NaN y = NaN"
| "js_sub x NaN = NaN"
| "js_sub PosInf PosInf = NaN"
| "js_sub NegInf NegInf = NaN"
| "js_sub PosInf y = PosInf"
| "js_sub NegInf y = NegInf"
| "js_sub (Fin a) PosInf = NegInf"
| "js_sub (Fin a) NegInf = PosInf"

fun js_gt0 :: "jsnum \<Rightarrow> bool" where
  \<comment> \<open>\<^verbatim>\<open>x > 0\<close>\<close>
  "js_gt0 (Fin a) = (0 < a)"
| "js_gt0 PosInf = True"
| "js_gt0 NegInf = False"
| "js_gt0 NaN = False"

fun js_lt :: "jsnum \<Rightarrow> jsnum \<Rightarrow> bool" where
  \<comment> \<open>\<^verbatim>\<open>x < y\<close>: false as soon as one side is NaN\<close>
  "js_lt (Fin a) (Fin b) = (a < b)"
| "js_lt NaN y = False"
| "js_lt x NaN = False"
| "js_lt x NegInf = False"
| "js_lt PosInf y = False"
| "js_lt NegInf y = True"
| "js_lt (Fin a) PosInf = True"

fun js_round :: "jsnum \<Rightarrow> jsnum" where
  \<comment> \<open>\<^verbatim>\<open>Math.round\<close>: the nearest integer, a tie going up\<close>
  "js_round (Fin a) = Fin (of_int \<lfloor>a + 1 / 2\<rfloor>)"
| "js_round x = x"

text \<open>
  \<^verbatim>\<open>Array.prototype.sort(cmp)\<close> is a stable sort: \<open>a\<close> stays before \<open>b\<close> unless
  \<^verbatim>\<open>cmp(a, b) > 0\<close> (a NaN result counts as 0). Insertion from the right end keeps
  equal elements in their original order.
\<close>

fun js_insert :: "('a \<Rightarrow> 'a \<Rightarrow> jsnum) \<Rightarrow> 'a \<Rightarrow> 'a list \<Rightarrow> 'a list" where
  "js_insert cmp x [] = [x]"
| "js_insert cmp x (y # ys) =
     (if js_gt0 (cmp x y) then y # js_insert cmp x ys else x # y # ys)"

definition js_sort :: "('a \<Rightarrow> 'a \<Rightarrow> jsnum) \<Rightarrow> 'a list \<Rightarrow> 'a list" where
  "js_sort cmp xs = foldr (js_insert cmp) xs []"

section \<open>The rows read by the handler\<close>

text \<open>
  Identifiers are strings. Only the fields the handler reads or that a claim speaks of
  are kept; the remaining scalar columns of a recipe (description, instructions, times,
  servings, difficulty, image, author, source) are copied to the payload unchanged,
  exactly as \<open>rc_title\<close> is. A table is the list of its rows, and \<^verbatim>\<open>findMany\<close>
  without \<^verbatim>\<open>orderBy\<close> returns the selected rows in the order of the table. A failing
  query makes the handler call \<^verbatim>\<open>next(error)\<close>; the model starts from the rows that the
  queries have returned.
\<close>

record fridgeItem =
  fi_id :: string
  fi_userId :: string
  fi_ingredientId :: string
  fi_quantity :: rat
  fi_unit :: string
  fi_expiryDate :: "string option"

record favoriteRecipe =
  fav_id :: string
  fav_userId :: string
  fav_recipeId :: string

record recipeIngredient =
  ri_id :: string
  ri_recipeId :: string
  ri_ingredientId :: string
  ri_quantity :: rat
  ri_unit :: string

record recipe =
  rc_id :: string
  rc_title :: string
  rc_ingredients :: "recipeIngredient list"

text \<open>A recipe as \<^verbatim>\<open>findMany\<close> returns it with
  \<^verbatim>\<open>include: { favoriteRecipes: { where: { userId }, select: { id: true } } }\<close>.\<close>

record recipeWithFavorites = recipe +
  rc_favoriteRecipes :: "string list"

record database =
  db_fridgeItems :: "fridgeItem list"
  db_favoriteRecipes :: "favoriteRecipe list"
  db_recipes :: "recipe list"

definition findFridgeItems :: "database \<Rightarrow> string \<Rightarrow> fridgeItem list" where
  "findFridgeItems db userId = filter (\<lambda>item. fi_userId item = userId) (db_fridgeItems db)"

definition findFavoriteRecipes :: "database \<Rightarrow> string \<Rightarrow> favoriteRecipe list" where
  "findFavoriteRecipes db userId =
     filter (\<lambda>fav. fav_userId fav = userId) (db_favoriteRecipes db)"

definition includeFavorites :: "database \<Rightarrow> string \<Rightarrow> recipe \<Rightarrow> recipeWithFavorites" where
  "includeFavorites db userId r =
     \<lparr> rc_id = rc_id r, rc_title = rc_title r, rc_ingredients = rc_ingredients r,
       rc_favoriteRecipes =
         map fav_id (filter (\<lambda>fav. fav_recipeId fav = rc_id r \<and> fav_userId fav = userId)
                            (db_favoriteRecipes db)) \<rparr>"

definition findRecipesIn :: "database \<Rightarrow> string \<Rightarrow> string set \<Rightarrow> recipeWithFavorites list" where
  \<comment> \<open>\<^verbatim>\<open>prisma.recipe.findMany({ where: { id: { in: ids } }, include })\<close>\<close>
  "findRecipesIn db userId ids =
     map (includeFavorites db userId) (filter (\<lambda>r. rc_id r \<in> ids) (db_recipes db))"

definition findAllRecipes :: "database \<Rightarrow> string \<Rightarrow> recipeWithFavorites list" where
  "findAllRecipes db userId = map (includeFavorites db userId) (db_recipes db)"

section \<open>The suggestion handler\<close>

record scored =
  sr_recipe :: recipeWithFavorites
  sr_score :: jsnum
  sr_missingIngredients :: nat

record ingredientPayload =
  ip_id :: string
  ip_ingredientId :: string
  ip_quantity :: rat
  ip_unit :: string
  ip_available :: bool

record recipePayload =
  rp_id :: string
  rp_title :: string
  rp_ingredients :: "ingredientPayload list"
  rp_isFavorite :: bool
  rp_compatibilityScore :: jsnum
  rp_missingIngredientsCount :: nat

record response =
  resp_success :: bool
  resp_suggestions :: "recipePayload list"

definition scoreRecipe :: "string list \<Rightarrow> recipeWithFavorites \<Rightarrow> scored" where
  \<comment> \<open>the callback of \<^verbatim>\<open>allRecipes.map\<close>, lines 279 to 297\<close>
  "scoreRecipe availableIngredientIds recipe =
     (let totalIngredients = length (rc_ingredients recipe);
          availableIngredients =
            length (filter (\<lambda>ri. ri_ingredientId ri \<in> set availableIngredientIds)
                           (rc_ingredients recipe));
          score = (if 0 < totalIngredients
                   then js_times (js_div_length availableIngredients totalIngredients) 100
                   else Fin 0)
      in \<lparr> sr_recipe = recipe, sr_score = score,
           sr_missingIngredients =
             length (filter (\<lambda>ri. ri_ingredientId ri \<notin> set availableIngredientIds)
                            (rc_ingredients recipe)) \<rparr>)"

definition ingredientPayloadOf :: "string list \<Rightarrow> recipeIngredient \<Rightarrow> ingredientPayload" where
  "ingredientPayloadOf availableIngredientIds ri =
     \<lparr> ip_id = ri_id ri, ip_ingredientId = ri_ingredientId ri, ip_quantity = ri_quantity ri,
       ip_unit = ri_unit ri,
       ip_available = (ri_ingredientId ri \<in> set availableIngredientIds) \<rparr>"

definition favoritePayload :: "string list \<Rightarrow> recipeWithFavorites \<Rightarrow> recipePayload" where
  \<comment> \<open>the callback of \<^verbatim>\<open>favoriteRecipes.map\<close>, lines 300 to 332\<close>
  "favoritePayload availableIngredientIds recipe =
     \<lparr> rp_id = rc_id recipe, rp_title = rc_title recipe,
       rp_ingredients = map (ingredientPayloadOf availableIngredientIds) (rc_ingredients recipe),
       rp_isFavorite = True,
       rp_compatibilityScore = Fin 100,
       rp_missingIngredientsCount = 0 \<rparr>"

definition suggestionPayload :: "string list \<Rightarrow> scored \<Rightarrow> recipePayload" where
  \<comment> \<open>the callback of the last \<^verbatim>\<open>map\<close> of \<^verbatim>\<open>suggestions\<close>, lines 340 to 372\<close>
  "suggestionPayload availableIngredientIds s =
     \<lparr> rp_id = rc_id (sr_recipe s), rp_title = rc_title (sr_recipe s),
       rp_ingredients =
         map (ingredientPayloadOf availableIngredientIds) (rc_ingredients (sr_recipe s)),
       rp_isFavorite = (0 < length (rc_favoriteRecipes (sr_recipe s))),
       rp_compatibilityScore = js_round (sr_score s),
       rp_missingIngredientsCount = sr_missingIngredients s \<rparr>"

definition byScoreDesc :: "scored \<Rightarrow> scored \<Rightarrow> jsnum" where
  \<comment> \<open>\<^verbatim>\<open>(a, b) => b.score - a.score\<close>\<close>
  "byScoreDesc a b = js_sub (sr_score b) (sr_score a)"

definition suggestionsOf ::
  "string list \<Rightarrow> string set \<Rightarrow> recipePayload list \<Rightarrow> scored list \<Rightarrow> recipePayload list" where
  \<comment> \<open>lines 334 to 372: filter, sort, slice, map\<close>
  "suggestionsOf availableIngredientIds favoriteIdsSet favoriteRecipesPayload scoredRecipes =
     map (suggestionPayload availableIngredientIds)
       (take (nat (max (10 - int (length favoriteRecipesPayload)) 0))
         (js_sort byScoreDesc
           (filter (\<lambda>s. js_gt0 (sr_score s) \<and> rc_id (sr_recipe s) \<notin> favoriteIdsSet)
                   scoredRecipes)))"

record locals =
  lc_favoriteRecipesPayload :: "recipePayload list"
  lc_suggestions :: "recipePayload list"
  lc_combinedSuggestions :: "recipePayload list"

definition availableIngredientIdsOf :: "database \<Rightarrow> string \<Rightarrow> string list" where
  "availableIngredientIdsOf db userId = map fi_ingredientId (findFridgeItems db userId)"

definition favoriteIdsSetOf :: "database \<Rightarrow> string \<Rightarrow> string set" where
  "favoriteIdsSetOf db userId = set (map fav_recipeId (findFavoriteRecipes db userId))"

definition handlerLocals :: "database \<Rightarrow> string \<Rightarrow> locals option" where
  \<comment> \<open>the handler's constants at line 378; \<open>None\<close> when it has returned at line 211\<close>
  "handlerLocals db userId =
     (let availableIngredientIds = availableIngredientIdsOf db userId
      in if length availableIngredientIds = 0 then None
         else
           let favoriteIdsSet = favoriteIdsSetOf db userId;
               favoriteRecipes = findRecipesIn db userId favoriteIdsSet;
               allRecipes = findAllRecipes db userId;
               scoredRecipes = map (scoreRecipe availableIngredientIds) allRecipes;
               favoriteRecipesPayload =
                 map (favoritePayload availableIngredientIds) favoriteRecipes;
               suggestions = suggestionsOf availableIngredientIds favoriteIdsSet
                               favoriteRecipesPayload scoredRecipes;
               combinedSuggestions = take 10 (favoriteRecipesPayload @ suggestions)
           in Some \<lparr> lc_favoriteRecipesPayload = favoriteRecipesPayload,
                     lc_suggestions = suggestions,
                     lc_combinedSuggestions = combinedSuggestions \<rparr>)"

definition getSuggestions :: "database \<Rightarrow> string \<Rightarrow> response" where
  \<comment> \<open>the body sent by \<^verbatim>\<open>res.json\<close>: line 211 or line 379\<close>
  "getSuggestions db userId =
     (case handlerLocals db userId of
        None \<Rightarrow> \<lparr> resp_success = True, resp_suggestions = [] \<rparr>
      | Some l \<Rightarrow> \<lparr> resp_success = True, resp_suggestions = lc_suggestions l \<rparr>)"

text \<open>The score of the specification, on exact numbers: \<open>round (100 * available / total)\<close>.\<close>

definition spec_compatibilityScore :: "nat \<Rightarrow> nat \<Rightarrow> int" where
  "spec_compatibilityScore availableCount totalCount =
     round (100 * of_nat availableCount / (of_nat totalCount :: rat))"

section \<open>Auxiliary notions\<close>

text \<open>
  The two counts of the specification: \<open>availableCount\<close> is the number of required
  ingredient references held in the inventory, \<open>totalCount\<close> is the length of the list
  of required ingredients. \<open>scoreValue\<close> is the double that the handler computes from them
  when the list is not empty.
\<close>

definition availableCount :: "string list \<Rightarrow> recipeIngredient list \<Rightarrow> nat" where
  "availableCount inventory ingredients =
     length (filter (\<lambda>ri. ri_ingredientId ri \<in> set inventory) ingredients)"

definition scoreValue :: "nat \<Rightarrow> nat \<Rightarrow> rat" where
  "scoreValue a t = rnd (rnd (of_nat a / of_nat t) * 100)"

definition finiteScore :: "scored \<Rightarrow> bool" where
  "finiteScore s = (case sr_score s of Fin q \<Rightarrow> True | _ \<Rightarrow> False)"

definition scoreNotBelow :: "scored \<Rightarrow> scored \<Rightarrow> bool" where
  "scoreNotBelow a b = (\<not> js_lt (sr_score a) (sr_score b))"

section \<open>Example databases\<close>

definition mkIngredient :: "string \<Rightarrow> string \<Rightarrow> recipeIngredient" where
  "mkIngredient recipeId ingredientId =
     \<lparr> ri_id = recipeId @ ''-'' @ ingredientId, ri_recipeId = recipeId,
       ri_ingredientId = ingredientId, ri_quantity = 1, ri_unit = ''piece'' \<rparr>"

definition mkRecipe :: "string \<Rightarrow> string list \<Rightarrow> recipe" where
  "mkRecipe recipeId ingredientIds =
     \<lparr> rc_id = recipeId, rc_title = recipeId,
       rc_ingredients = map (mkIngredient recipeId) ingredientIds \<rparr>"

definition mkFridgeItem :: "string \<Rightarrow> string \<Rightarrow> rat \<Rightarrow> fridgeItem" where
  "mkFridgeItem userId ingredientId quantity =
     \<lparr> fi_id = userId @ ''-'' @ ingredientId, fi_userId = userId,
       fi_ingredientId = ingredientId, fi_quantity = quantity, fi_unit = ''g'',
       fi_expiryDate = None \<rparr>"

definition mkFavorite :: "string \<Rightarrow> string \<Rightarrow> favoriteRecipe" where
  "mkFavorite userId recipeId =
     \<lparr> fav_id = userId @ ''-'' @ recipeId, fav_userId = userId, fav_recipeId = recipeId \<rparr>"

text \<open>
  Ann holds tomato and onion and has marked D; Bob holds nothing and has marked B
  (scenarios 2 to 4 of the specification in one catalog, and a recipe without ingredients).
\<close>

definition kitchen :: database where
  "kitchen =
     \<lparr> db_fridgeItems = [mkFridgeItem ''ann'' ''tomato'' 2, mkFridgeItem ''ann'' ''onion'' 1],
       db_favoriteRecipes = [mkFavorite ''ann'' ''D'', mkFavorite ''bob'' ''B''],
       db_recipes = [mkRecipe ''A'' [''tomato'', ''onion'', ''garlic''],
                     mkRecipe ''B'' [''tomato''],
                     mkRecipe ''C'' [''garlic'', ''leek''],
                     mkRecipe ''D'' [''chicken''],
                     mkRecipe ''E'' []] \<rparr>"

definition restockedKitchen :: database where
  "restockedKitchen =
     kitchen \<lparr> db_fridgeItems :=
       map (\<lambda>item. item \<lparr> fi_quantity := 500, fi_unit := ''kg'',
                           fi_expiryDate := Some ''2030-01-01'' \<rparr>)
           (db_fridgeItems kitchen) \<rparr>"

text \<open>
  Twelve recipes that need rice only (scenario 5 of the specification). Ann, Carol and
  Dave hold rice; Ann has marked nothing, Carol the first 10 recipes, Dave the first 11.
\<close>

definition riceDishes :: "string list" where
  "riceDishes = [''r01'', ''r02'', ''r03'', ''r04'', ''r05'', ''r06'', ''r07'', ''r08'', ''r09'',
                 ''r10'', ''r11'', ''r12'']"

definition pantry :: database where
  "pantry =
     \<lparr> db_fridgeItems = [mkFridgeItem ''ann'' ''rice'' 1, mkFridgeItem ''carol'' ''rice'' 1,
                         mkFridgeItem ''dave'' ''rice'' 1],
       db_favoriteRecipes = map (mkFavorite ''carol'') (take 10 riceDishes) @
                            map (mkFavorite ''dave'') (take 11 riceDishes),
       db_recipes = map (\<lambda>n. mkRecipe n [''rice'']) riceDishes \<rparr>"

text \<open>
  Two long recipes: Erin holds salt, 1 of the 201 ingredients of the feast; Frank holds
  23 of the 40 ingredients of the stew.
\<close>

definition ingredientName :: "nat \<Rightarrow> string" where
  "ingredientName i = CHR ''x'' # replicate i (CHR ''i'')"

definition feast :: recipe where
  "feast = mkRecipe ''feast'' (''salt'' # map ingredientName [0..<200])"

definition banquet :: database where
  "banquet =
     \<lparr> db_fridgeItems = [mkFridgeItem ''erin'' ''salt'' 1],
       db_favoriteRecipes = [],
       db_recipes = [feast] \<rparr>"

definition stew :: recipe where
  "stew = mkRecipe ''stew'' (map ingredientName [0..<40])"

definition potluck :: database where
  "potluck =
     \<lparr> db_fridgeItems = map (\<lambda>n. mkFridgeItem ''frank'' n 1) (map ingredientName [0..<23]),
       db_favoriteRecipes = [],
       db_recipes = [stew] \<rparr>"

section \<open>The handler's two exits\<close>

lemma handlerLocals_None_iff:
  "handlerLocals db userId = None \<longleftrightarrow> findFridgeItems db userId = []"
  by (simp add: handlerLocals_def availableIngredientIdsOf_def Let_def)

lemma handlerLocals_SomeD:
  assumes "handlerLocals db userId = Some l"
  shows "lc_favoriteRecipesPayload l =
           map (favoritePayload (availableIngredientIdsOf db userId))
               (findRecipesIn db userId (favoriteIdsSetOf db userId))"
    and "lc_suggestions l =
           suggestionsOf (availableIngredientIdsOf db userId) (favoriteIdsSetOf db userId)
             (lc_favoriteRecipesPayload l)
             (map (scoreRecipe (availableIngredientIdsOf db userId)) (findAllRecipes db userId))"
    and "lc_combinedSuggestions l = take 10 (lc_favoriteRecipesPayload l @ lc_suggestions l)"
    and "findFridgeItems db userId \<noteq> []"
  using assms
  by (auto simp add: handlerLocals_def Let_def availableIngredientIdsOf_def split: if_splits)

lemma length_suggestionsOf:
  "length (suggestionsOf av favs fp scs) \<le> nat (max (10 - int (length fp)) 0)"
  by (simp add: suggestionsOf_def)

section \<open>Rounding to binary64\<close>

lemma quotient_of_pos:
  assumes "0 < x" "quotient_of x = (p, q)"
  shows "0 < p" "0 < q" "x = of_int p / of_int q"
proof -
  show q: "0 < q" using assms(2) by (rule quotient_of_denom_pos)
  show x: "x = of_int p / of_int q" using assms(2) by (rule quotient_of_div)
  show "0 < p" using assms(1) q unfolding x by (simp add: zero_less_divide_iff)
qed

lemma ilog2_bounds:
  assumes "0 < x"
  shows "2 powi (ilog2 x) \<le> x" and "x < 2 powi (ilog2 x + 1)"
proof -
  obtain p q where pq: "quotient_of x = (p, q)" by (cases "quotient_of x")
  note P = quotient_of_pos [OF assms pq]
  define k where "k = bitlen p - bitlen q"
  have bp: "2 ^ nat (bitlen p - 1) \<le> p" "p < 2 ^ nat (bitlen p)"
    using bitlen_bounds [OF P(1)] by auto
  have bq: "2 ^ nat (bitlen q - 1) \<le> q" "q < 2 ^ nat (bitlen q)"
    using bitlen_bounds [OF P(2)] by auto
  have bp1: "1 \<le> bitlen p" using P(1) bitlen_eq_zero_iff [of p] bitlen_nonneg [of p] by linarith
  have bq1: "1 \<le> bitlen q" using P(2) bitlen_eq_zero_iff [of q] bitlen_nonneg [of q] by linarith
  have rp: "(2::rat) powi (bitlen p - 1) \<le> of_int p" "(of_int p :: rat) < 2 powi (bitlen p)"
  proof -
    have "(of_int (2 ^ nat (bitlen p - 1)) :: rat) \<le> of_int p"
      using bp(1) by (simp only: of_int_le_iff)
    then show "(2::rat) powi (bitlen p - 1) \<le> of_int p"
      using bp1 by (simp add: power_int_def)
    have "(of_int p :: rat) < of_int (2 ^ nat (bitlen p))"
      using bp(2) by (simp only: of_int_less_iff)
    then show "(of_int p :: rat) < 2 powi (bitlen p)"
      using bp1 by (simp add: power_int_def)
  qed
  have rq: "(2::rat) powi (bitlen q - 1) \<le> of_int q" "(of_int q :: rat) < 2 powi (bitlen q)"
  proof -
    have "(of_int (2 ^ nat (bitlen q - 1)) :: rat) \<le> of_int q"
      using bq(1) by (simp only: of_int_le_iff)
    then show "(2::rat) powi (bitlen q - 1) \<le> of_int q"
      using bq1 by (simp add: power_int_def)
    have "(of_int q :: rat) < of_int (2 ^ nat (bitlen q))"
      using bq(2) by (simp only: of_int_less_iff)
    then show "(of_int q :: rat) < 2 powi (bitlen q)"
      using bq1 by (simp add: power_int_def)
  qed
  have qpos: "(0::rat) < of_int q" using P(2) by simp
  have lo: "(2::rat) powi (k - 1) \<le> x"
  proof -
    have "(2::rat) powi (k - 1) * of_int q \<le> 2 powi (k - 1) * 2 powi (bitlen q)"
      using rq(2) by (intro mult_left_mono) auto
    also have "\<dots> = 2 powi (bitlen p - 1)"
      by (simp add: k_def flip: power_int_add)
    also have "\<dots> \<le> of_int p" by (rule rp(1))
    finally show ?thesis unfolding P(3) using qpos by (simp add: pos_le_divide_eq)
  qed
  have hi: "x < (2::rat) powi (k + 1)"
  proof -
    have "of_int p < (2::rat) powi (bitlen p)" by (rule rp(2))
    also have "\<dots> = 2 powi (k + 1) * 2 powi (bitlen q - 1)"
      by (simp add: k_def flip: power_int_add)
    also have "\<dots> \<le> 2 powi (k + 1) * of_int q"
      using rq(1) by (intro mult_left_mono) auto
    finally show ?thesis unfolding P(3) using qpos by (simp add: pos_divide_less_eq)
  qed
  have il: "ilog2 x = (if 2 powi k \<le> x then k else k - 1)"
    by (simp add: ilog2_def pq k_def Let_def)
  show "2 powi (ilog2 x) \<le> x" using lo by (simp add: il)
  show "x < 2 powi (ilog2 x + 1)" using hi by (auto simp add: il not_le)
qed


lemma round_even_error:
  shows "of_int (round_even y) - y \<le> 1 / 2" and "y - of_int (round_even y) \<le> 1 / 2"
proof -
  have h: "of_int \<lfloor>y\<rfloor> \<le> y" "y < of_int \<lfloor>y\<rfloor> + 1" by linarith+
  show "of_int (round_even y) - y \<le> 1 / 2"
    unfolding round_even_def Let_def using h by (simp only: split: if_split) linarith
  show "y - of_int (round_even y) \<le> 1 / 2"
    unfolding round_even_def Let_def using h by (simp only: split: if_split) linarith
qed

lemma round_even_of_int [simp]: "round_even (of_int n) = n"
  by (simp add: round_even_def)

lemma round_even_floor: "\<lfloor>y\<rfloor> \<le> round_even y" "round_even y \<le> \<lfloor>y\<rfloor> + 1"
  by (auto simp add: round_even_def Let_def)

lemma round_even_mono:
  assumes "x \<le> y"
  shows "round_even x \<le> round_even y"
proof (cases "\<lfloor>x\<rfloor> = \<lfloor>y\<rfloor>")
  case True
  then show ?thesis using assms by (auto simp add: round_even_def Let_def)
next
  case False
  moreover have "\<lfloor>x\<rfloor> \<le> \<lfloor>y\<rfloor>" using assms by (rule floor_mono)
  ultimately have "\<lfloor>x\<rfloor> + 1 \<le> \<lfloor>y\<rfloor>" by simp
  then show ?thesis using round_even_floor(2) [of x] round_even_floor(1) [of y] by linarith
qed

lemma ilog2_mono:
  assumes "0 < x" "x \<le> y"
  shows "ilog2 x \<le> ilog2 y"
proof (rule ccontr)
  assume "\<not> ilog2 x \<le> ilog2 y"
  then have "ilog2 y + 1 \<le> ilog2 x" by simp
  then have "(2::rat) powi (ilog2 y + 1) \<le> 2 powi (ilog2 x)"
    by (rule power_int_increasing) simp
  moreover have "y < 2 powi (ilog2 y + 1)" using assms by (intro ilog2_bounds(2)) simp
  moreover have "2 powi (ilog2 x) \<le> x" using assms(1) by (rule ilog2_bounds(1))
  ultimately show False using assms(2) by linarith
qed

lemma rnd_pos_scaled:
  assumes "0 < x"
  defines "s \<equiv> (2::rat) powi (ilog2 x - 52)"
  shows "0 < s" and "rnd_pos x = of_int (round_even (x / s)) * s"
    and "2 ^ 52 \<le> x / s" and "x / s < 2 ^ 53"
    and "2 powi (ilog2 x) = 2 ^ 52 * s" and "2 powi (ilog2 x + 1) = 2 ^ 53 * s"
proof -
  show s: "0 < s" by (simp add: s_def)
  show "rnd_pos x = of_int (round_even (x / s)) * s" by (simp add: rnd_pos_def s_def Let_def)
  have "(2::rat) powi (ilog2 x) = 2 powi 52 * 2 powi (ilog2 x - 52)"
    using power_int_add [of "2::rat" 52 "ilog2 x - 52"] by simp
  then show a: "2 powi (ilog2 x) = 2 ^ 52 * s" by (simp add: s_def)
  have "ilog2 x + 1 = 53 + (ilog2 x - 52)" by linarith
  then have "(2::rat) powi (ilog2 x + 1) = 2 powi (53 + (ilog2 x - 52))" by (rule arg_cong)
  also have "\<dots> = 2 powi 53 * 2 powi (ilog2 x - 52)" by (rule power_int_add) simp
  finally have "(2::rat) powi (ilog2 x + 1) = 2 powi 53 * 2 powi (ilog2 x - 52)" .
  then show b: "2 powi (ilog2 x + 1) = 2 ^ 53 * s" by (simp add: s_def)
  show "2 ^ 52 \<le> x / s" using ilog2_bounds(1) [OF assms(1)] s
    unfolding a by (simp add: pos_le_divide_eq)
  show "x / s < 2 ^ 53" using ilog2_bounds(2) [OF assms(1)] s
    unfolding b by (simp add: pos_divide_less_eq)
qed

lemma rnd_pos_bounds:
  assumes "0 < x"
  shows "2 powi (ilog2 x) \<le> rnd_pos x" and "rnd_pos x \<le> 2 powi (ilog2 x + 1)"
proof -
  define s where "s = (2::rat) powi (ilog2 x - 52)"
  note S = rnd_pos_scaled [OF assms, folded s_def]
  have "round_even (of_int (2 ^ 52)) \<le> round_even (x / s)"
    by (rule round_even_mono) (use S(3) in simp)
  then have lo: "(2::int) ^ 52 \<le> round_even (x / s)" by (simp only: round_even_of_int)
  have "round_even (x / s) \<le> round_even (of_int (2 ^ 53))"
    by (rule round_even_mono) (use S(4) in simp)
  then have hi: "round_even (x / s) \<le> (2::int) ^ 53" by (simp only: round_even_of_int)
  have "(of_int (2 ^ 52) :: rat) \<le> of_int (round_even (x / s))"
    using lo by (simp only: of_int_le_iff)
  then have "2 ^ 52 * s \<le> of_int (round_even (x / s)) * s"
    using S(1) by (intro mult_right_mono) simp_all
  then show "2 powi (ilog2 x) \<le> rnd_pos x" by (simp only: S(2) S(5))
  have "(of_int (round_even (x / s)) :: rat) \<le> of_int (2 ^ 53)"
    using hi by (simp only: of_int_le_iff)
  then have "of_int (round_even (x / s)) * s \<le> 2 ^ 53 * s"
    using S(1) by (intro mult_right_mono) simp_all
  then show "rnd_pos x \<le> 2 powi (ilog2 x + 1)" by (simp only: S(2) S(6))
qed

lemma rnd_pos_error:
  assumes "0 < x"
  shows "\<bar>rnd_pos x - x\<bar> \<le> x / 2 ^ 53"
proof -
  define s where "s = (2::rat) powi (ilog2 x - 52)"
  note S = rnd_pos_scaled [OF assms, folded s_def]
  define m :: rat where "m = of_int (round_even (x / s))"
  have x: "x = (x / s) * s" using S(1) by simp
  have "rnd_pos x - x = (m - x / s) * s"
    using S(1) by (simp add: S(2) m_def algebra_simps)
  moreover have "\<bar>m - x / s\<bar> \<le> 1 / 2"
    unfolding m_def
    using round_even_error(1) [of "x / s"] round_even_error(2) [of "x / s"] by linarith
  ultimately have "\<bar>rnd_pos x - x\<bar> \<le> (1 / 2) * s"
    using S(1) by (simp add: abs_mult mult_right_mono)
  also have "\<dots> \<le> (x / s / 2 ^ 53) * s"
    using S(1) S(3) by (intro mult_right_mono) (simp_all add: field_simps)
  also have "\<dots> = x / 2 ^ 53" using S(1) by simp
  finally show ?thesis .
qed

lemma rnd_pos_mono:
  assumes "0 < x" "x \<le> y"
  shows "rnd_pos x \<le> rnd_pos y"
proof (cases "ilog2 x = ilog2 y")
  case True
  define s where "s = (2::rat) powi (ilog2 x - 52)"
  have y: "0 < y" using assms by simp
  note Sx = rnd_pos_scaled [OF assms(1), folded s_def]
  note Sy = rnd_pos_scaled [OF y, folded True, folded s_def]
  have "x / s \<le> y / s" using assms(2) Sx(1) by (simp add: divide_right_mono)
  then have "round_even (x / s) \<le> round_even (y / s)" by (rule round_even_mono)
  then have "(of_int (round_even (x / s)) :: rat) \<le> of_int (round_even (y / s))"
    by (simp only: of_int_le_iff)
  then show ?thesis unfolding Sx(2) Sy(2) using Sx(1) by (intro mult_right_mono) simp_all
next
  case False
  have y: "0 < y" using assms by simp
  have "ilog2 x \<le> ilog2 y" using assms by (rule ilog2_mono)
  with False have "ilog2 x + 1 \<le> ilog2 y" by simp
  then have "(2::rat) powi (ilog2 x + 1) \<le> 2 powi (ilog2 y)"
    by (rule power_int_increasing) simp
  with rnd_pos_bounds(2) [OF assms(1)] rnd_pos_bounds(1) [OF y] show ?thesis by linarith
qed

lemma rnd_pos_positive:
  assumes "0 < x"
  shows "0 < rnd_pos x"
proof -
  have "(0::rat) < 2 powi (ilog2 x)" by simp
  with rnd_pos_bounds(1) [OF assms] show ?thesis by linarith
qed

lemma rnd_sign: "0 < rnd x \<longleftrightarrow> 0 < x"
  using rnd_pos_positive [of x] rnd_pos_positive [of "- x"]
  by (auto simp add: rnd_def not_less dest: less_imp_le)

lemma rnd_nonneg: "0 \<le> x \<Longrightarrow> 0 \<le> rnd x"
  using rnd_sign [of x] by (cases "x = 0") (simp_all add: rnd_def less_imp_le)

lemma rnd_mono_nonneg:
  assumes "0 \<le> x" "x \<le> y"
  shows "rnd x \<le> rnd y"
proof (cases "x = 0")
  case True
  then show ?thesis using assms rnd_nonneg [of y] by (simp add: rnd_def)
next
  case False
  then have "0 < x" "0 < y" using assms by simp_all
  then show ?thesis using rnd_pos_mono [of x y] assms by (simp add: rnd_def)
qed

lemma rnd_error:
  assumes "0 \<le> x"
  shows "\<bar>rnd x - x\<bar> \<le> x / 2 ^ 53"
  using rnd_pos_error [of x] assms by (cases "x = 0") (simp_all add: rnd_def)

lemma rnd_1: "rnd 1 = 1" by code_simp
lemma rnd_100: "rnd 100 = 100" by code_simp

section \<open>The score of one recipe\<close>

lemma availableCount_le: "availableCount av ings \<le> length ings"
  by (simp add: availableCount_def)

lemma sr_score_eq:
  "sr_score (scoreRecipe av r) =
     (if 0 < length (rc_ingredients r)
      then Fin (scoreValue (availableCount av (rc_ingredients r)) (length (rc_ingredients r)))
      else Fin 0)"
  by (simp add: scoreRecipe_def Let_def js_div_length_def scoreValue_def availableCount_def)

lemma sr_recipe_eq [simp]: "sr_recipe (scoreRecipe av r) = r"
  by (simp add: scoreRecipe_def Let_def)

lemma sr_missing_eq:
  "sr_missingIngredients (scoreRecipe av r) =
     length (rc_ingredients r) - availableCount av (rc_ingredients r)"
proof -
  have "length (filter (\<lambda>ri. ri_ingredientId ri \<in> set av) (rc_ingredients r)) +
        length (filter (\<lambda>ri. ri_ingredientId ri \<notin> set av) (rc_ingredients r)) =
        length (rc_ingredients r)"
    by (rule sum_length_filter_compl)
  then show ?thesis by (simp add: scoreRecipe_def Let_def availableCount_def)
qed

lemma scoreValue_bounds:
  assumes "a \<le> t" "0 < t"
  shows "0 \<le> scoreValue a t" and "scoreValue a t \<le> 100"
    and "0 < scoreValue a t \<longleftrightarrow> 0 < a"
proof -
  define q :: rat where "q = of_nat a / of_nat t"
  have q: "0 \<le> q" "q \<le> 1" using assms by (simp_all add: q_def)
  have r0: "0 \<le> rnd q" using q(1) by (rule rnd_nonneg)
  have "rnd q \<le> rnd 1" using q by (rule rnd_mono_nonneg)
  then have r1: "rnd q \<le> 1" by (simp only: rnd_1)
  have m: "0 \<le> rnd q * 100" "rnd q * 100 \<le> 100" using r0 r1 by simp_all
  show "0 \<le> scoreValue a t" unfolding scoreValue_def q_def [symmetric]
    using m(1) by (rule rnd_nonneg)
  have "rnd (rnd q * 100) \<le> rnd 100" using m by (rule rnd_mono_nonneg)
  then show "scoreValue a t \<le> 100" unfolding scoreValue_def q_def [symmetric]
    by (simp only: rnd_100)
  have "0 < scoreValue a t \<longleftrightarrow> 0 < rnd q * 100"
    unfolding scoreValue_def q_def [symmetric] by (rule rnd_sign)
  also have "\<dots> \<longleftrightarrow> 0 < rnd q" by simp
  also have "\<dots> \<longleftrightarrow> 0 < q" by (rule rnd_sign)
  also have "\<dots> \<longleftrightarrow> 0 < a" using assms(2) by (simp add: q_def zero_less_divide_iff)
  finally show "0 < scoreValue a t \<longleftrightarrow> 0 < a" .
qed

lemma sr_score_finite:
  "\<exists>q. sr_score (scoreRecipe av r) = Fin q \<and> 0 \<le> q \<and> q \<le> 100 \<and>
       (0 < q \<longleftrightarrow> 0 < availableCount av (rc_ingredients r))"
proof (cases "0 < length (rc_ingredients r)")
  case True
  note B = scoreValue_bounds [OF availableCount_le True, of av]
  show ?thesis using True B by (simp add: sr_score_eq)
next
  case False
  then show ?thesis by (simp add: sr_score_eq availableCount_def)
qed

subsection \<open>Sorting by score\<close>

lemma finiteScoreE:
  assumes "finiteScore s"
  obtains q where "sr_score s = Fin q"
  using assms by (cases "sr_score s") (simp_all add: finiteScore_def)

lemma finiteScore_scoreRecipe [simp]: "finiteScore (scoreRecipe av r)"
  using sr_score_finite [of av r] by (auto simp add: finiteScore_def)

lemma byScoreDesc_gt0:
  assumes "finiteScore a" "finiteScore b"
  shows "js_gt0 (byScoreDesc a b) \<longleftrightarrow> js_lt (sr_score a) (sr_score b)"
proof -
  from assms obtain p q where "sr_score a = Fin p" "sr_score b = Fin q"
    by (auto elim!: finiteScoreE)
  then show ?thesis by (simp add: byScoreDesc_def rnd_sign)
qed

lemma scoreNotBelow_trans:
  assumes "finiteScore a" "finiteScore b" "finiteScore c"
    and "scoreNotBelow a b" "scoreNotBelow b c"
  shows "scoreNotBelow a c"
proof -
  from assms(1-3) obtain p q r where "sr_score a = Fin p" "sr_score b = Fin q" "sr_score c = Fin r"
    by (auto elim!: finiteScoreE)
  then show ?thesis using assms(4,5) by (simp add: scoreNotBelow_def)
qed

lemma scoreNotBelow_total:
  assumes "finiteScore a" "finiteScore b" "\<not> js_lt (sr_score b) (sr_score a)"
  shows "scoreNotBelow b a"
  using assms by (simp add: scoreNotBelow_def)

lemma scoreNotBelow_of_lt:
  assumes "finiteScore a" "finiteScore b" "js_lt (sr_score a) (sr_score b)"
  shows "scoreNotBelow b a"
proof -
  from assms(1,2) obtain p q where "sr_score a = Fin p" "sr_score b = Fin q"
    by (auto elim!: finiteScoreE)
  then show ?thesis using assms(3) by (simp add: scoreNotBelow_def)
qed

lemma set_js_insert [simp]: "set (js_insert cmp x ys) = insert x (set ys)"
  by (induction ys) auto

lemma length_js_insert [simp]: "length (js_insert cmp x ys) = Suc (length ys)"
  by (induction ys) auto

lemma set_js_sort [simp]: "set (js_sort cmp xs) = set xs"
  by (induction xs) (simp_all add: js_sort_def)

lemma length_js_sort [simp]: "length (js_sort cmp xs) = length xs"
  by (induction xs) (simp_all add: js_sort_def)

lemma js_insert_sorted:
  assumes "finiteScore x" "\<forall>s\<in>set ys. finiteScore s" "sorted_wrt scoreNotBelow ys"
  shows "sorted_wrt scoreNotBelow (js_insert byScoreDesc x ys)"
  using assms
proof (induction ys)
  case Nil
  then show ?case by simp
next
  case (Cons y ys)
  show ?case
  proof (cases "js_gt0 (byScoreDesc x y)")
    case True
    then have lt: "js_lt (sr_score x) (sr_score y)"
      using Cons.prems by (simp add: byScoreDesc_gt0)
    have yx: "scoreNotBelow y x"
      using Cons.prems lt by (intro scoreNotBelow_of_lt) simp_all
    have "sorted_wrt scoreNotBelow (js_insert byScoreDesc x ys)"
      using Cons by simp
    then show ?thesis using True yx Cons.prems by auto
  next
    case False
    then have xy: "scoreNotBelow x y"
      using Cons.prems by (simp add: byScoreDesc_gt0 scoreNotBelow_def)
    have "scoreNotBelow x z" if "z \<in> set ys" for z
    proof -
      have "scoreNotBelow y z" using Cons.prems(3) that by simp
      with xy show ?thesis
        using Cons.prems(1,2) that by (intro scoreNotBelow_trans [of x y z]) simp_all
    qed
    then show ?thesis using False xy Cons.prems(3) by auto
  qed
qed

lemma js_sort_sorted:
  assumes "\<forall>s\<in>set xs. finiteScore s"
  shows "sorted_wrt scoreNotBelow (js_sort byScoreDesc xs)"
  using assms
proof (induction xs)
  case Nil
  then show ?case by (simp add: js_sort_def)
next
  case (Cons x xs)
  have "sorted_wrt scoreNotBelow (js_insert byScoreDesc x (js_sort byScoreDesc xs))"
    using Cons by (intro js_insert_sorted) simp_all
  then show ?case by (simp add: js_sort_def)
qed

section \<open>What the response contains\<close>

lemma suggestionsOf_memberD:
  assumes "p \<in> set (suggestionsOf av favs fp (map (scoreRecipe av) rs))"
  shows "\<exists>r\<in>set rs. p = suggestionPayload av (scoreRecipe av r) \<and>
           js_gt0 (sr_score (scoreRecipe av r)) \<and> rc_id r \<notin> favs"
proof -
  from assms obtain s where
    s: "s \<in> set (take (nat (max (10 - int (length fp)) 0))
           (js_sort byScoreDesc
             (filter (\<lambda>s. js_gt0 (sr_score s) \<and> rc_id (sr_recipe s) \<notin> favs)
                     (map (scoreRecipe av) rs))))"
    and p: "p = suggestionPayload av s"
    by (auto simp add: suggestionsOf_def)
  from s have "s \<in> set (filter (\<lambda>s. js_gt0 (sr_score s) \<and> rc_id (sr_recipe s) \<notin> favs)
                     (map (scoreRecipe av) rs))"
    by (auto dest: in_set_takeD)
  then show ?thesis using p by auto
qed

lemma js_gt0_score_iff:
  "js_gt0 (sr_score (scoreRecipe av r)) \<longleftrightarrow> 0 < availableCount av (rc_ingredients r)"
  using sr_score_finite [of av r] by auto

lemma rc_id_includeFavorites [simp]: "rc_id (includeFavorites db u r) = rc_id r"
  and rc_ingredients_includeFavorites [simp]:
    "rc_ingredients (includeFavorites db u r) = rc_ingredients r"
  and rc_title_includeFavorites [simp]: "rc_title (includeFavorites db u r) = rc_title r"
  by (simp_all add: includeFavorites_def)

lemma response_memberD:
  assumes "p \<in> set (resp_suggestions (getSuggestions db u))"
  shows "\<exists>r\<in>set (db_recipes db).
           p = suggestionPayload (availableIngredientIdsOf db u)
                 (scoreRecipe (availableIngredientIdsOf db u) (includeFavorites db u r)) \<and>
           0 < availableCount (availableIngredientIdsOf db u) (rc_ingredients r) \<and>
           rc_id r \<notin> favoriteIdsSetOf db u"
proof (cases "handlerLocals db u")
  case None
  then show ?thesis using assms by (simp add: getSuggestions_def)
next
  case (Some l)
  then have "p \<in> set (lc_suggestions l)" using assms by (simp add: getSuggestions_def)
  then obtain r where "r \<in> set (findAllRecipes db u)"
    "p = suggestionPayload (availableIngredientIdsOf db u)
           (scoreRecipe (availableIngredientIdsOf db u) r)"
    "js_gt0 (sr_score (scoreRecipe (availableIngredientIdsOf db u) r))"
    "rc_id r \<notin> favoriteIdsSetOf db u"
    unfolding handlerLocals_SomeD(2) [OF Some] by (blast dest: suggestionsOf_memberD)
  then show ?thesis by (auto simp add: findAllRecipes_def js_gt0_score_iff)
qed

lemma suggestionsOf_sorted:
  "sorted_wrt (\<lambda>p q. \<not> js_lt (rp_compatibilityScore p) (rp_compatibilityScore q))
     (suggestionsOf av favs fp (map (scoreRecipe av) rs))"
proof -
  let ?f = "filter (\<lambda>s. js_gt0 (sr_score s) \<and> rc_id (sr_recipe s) \<notin> favs)
                     (map (scoreRecipe av) rs)"
  let ?t = "take (nat (max (10 - int (length fp)) 0)) (js_sort byScoreDesc ?f)"
  have fin: "\<forall>s\<in>set ?f. finiteScore s" by auto
  then have "sorted_wrt scoreNotBelow (js_sort byScoreDesc ?f)" by (rule js_sort_sorted)
  then have st: "sorted_wrt scoreNotBelow ?t" by (rule sorted_wrt_take)
  have fin_t: "finiteScore s" if "s \<in> set ?t" for s
    using that fin by (auto dest!: in_set_takeD)
  have step: "\<not> js_lt (rp_compatibilityScore (suggestionPayload av a))
                  (rp_compatibilityScore (suggestionPayload av b))"
    if "a \<in> set ?t" "b \<in> set ?t" "scoreNotBelow a b" for a b
  proof -
    from fin_t that(1,2) obtain x y where xy: "sr_score a = Fin x" "sr_score b = Fin y"
      by (blast elim: finiteScoreE)
    with that(3) have "y \<le> x" by (simp add: scoreNotBelow_def)
    then have "\<lfloor>y + 1 / 2\<rfloor> \<le> \<lfloor>x + 1 / 2\<rfloor>" by (intro floor_mono) simp
    then show ?thesis by (simp add: suggestionPayload_def xy)
  qed
  have "sorted_wrt (\<lambda>a b. \<not> js_lt (rp_compatibilityScore (suggestionPayload av a))
                  (rp_compatibilityScore (suggestionPayload av b))) ?t"
    using st by (rule sorted_wrt_mono_rel [rotated]) (use step in blast)
  then show ?thesis by (simp add: suggestionsOf_def sorted_wrt_map)
qed

lemma suggestion_score_integer:
  "\<exists>n. rp_compatibilityScore (suggestionPayload av (scoreRecipe av r)) = Fin (of_int n) \<and>
       0 \<le> n \<and> n \<le> 100"
proof -
  obtain q where q: "sr_score (scoreRecipe av r) = Fin q" "0 \<le> q" "q \<le> 100"
    using sr_score_finite [of av r] by blast
  have "0 \<le> \<lfloor>q + 1 / 2\<rfloor>" using q(2) by simp
  moreover have "\<lfloor>q + 1 / 2\<rfloor> \<le> 100" using q(3) by (simp add: floor_le_iff)
  ultimately show ?thesis by (simp add: suggestionPayload_def q(1))
qed

section \<open>Favorites and suggestions\<close>

lemma favorite_payload_ids:
  assumes "handlerLocals db u = Some l"
  shows "map rp_id (lc_favoriteRecipesPayload l) =
           map rc_id (filter (\<lambda>r. rc_id r \<in> favoriteIdsSetOf db u) (db_recipes db))"
  by (simp add: handlerLocals_SomeD(1) [OF assms] findRecipesIn_def favoritePayload_def
      comp_def)

lemma suggestion_ids_not_favorite:
  assumes "handlerLocals db u = Some l" "p \<in> set (lc_suggestions l)"
  shows "rp_id p \<notin> favoriteIdsSetOf db u"
proof -
  from assms have "p \<in> set (resp_suggestions (getSuggestions db u))"
    by (simp add: getSuggestions_def)
  from response_memberD [OF this] show ?thesis by (auto simp add: suggestionPayload_def)
qed

lemma favorite_ids_favorite:
  assumes "handlerLocals db u = Some l" "p \<in> set (lc_favoriteRecipesPayload l)"
  shows "rp_id p \<in> favoriteIdsSetOf db u"
proof -
  from assms(2) have "rp_id p \<in> set (map rp_id (lc_favoriteRecipesPayload l))" by simp
  then show ?thesis unfolding favorite_payload_ids [OF assms(1)] by auto
qed

lemma js_round_zero: "js_round (Fin 0) = Fin 0"
proof -
  have "\<lfloor>(1 / 2 :: rat)\<rfloor> = 0" by (rule floor_unique) simp_all
  then show ?thesis by simp
qed

section \<open>Dependence on the inventory\<close>

lemma scoreRecipe_cong_set:
  "set av = set av' \<Longrightarrow> scoreRecipe av r = scoreRecipe av' r"
  by (simp add: scoreRecipe_def)

lemma ingredientPayloadOf_cong_set:
  "set av = set av' \<Longrightarrow> ingredientPayloadOf av ri = ingredientPayloadOf av' ri"
  by (simp add: ingredientPayloadOf_def)

lemma suggestionPayload_cong_set:
  assumes "set av = set av'"
  shows "suggestionPayload av s = suggestionPayload av' s"
  using ingredientPayloadOf_cong_set [OF assms] by (simp add: suggestionPayload_def)

lemma favoritePayload_cong_set:
  assumes "set av = set av'"
  shows "favoritePayload av r = favoritePayload av' r"
  using ingredientPayloadOf_cong_set [OF assms] by (simp add: favoritePayload_def)

lemma handlerLocals_cong_set:
  assumes "set (availableIngredientIdsOf db userId) = set (availableIngredientIdsOf db' userId)"
    and "db_recipes db' = db_recipes db"
    and "db_favoriteRecipes db' = db_favoriteRecipes db"
  shows "handlerLocals db' userId = handlerLocals db userId"
proof -
  let ?av = "availableIngredientIdsOf db userId" and ?av' = "availableIngredientIdsOf db' userId"
  have e: "?av' = [] \<longleftrightarrow> ?av = []" using assms(1) by (metis set_empty)
  have f: "favoriteIdsSetOf db' userId = favoriteIdsSetOf db userId"
    by (simp add: favoriteIdsSetOf_def findFavoriteRecipes_def assms(3))
  have i: "includeFavorites db' userId = includeFavorites db userId"
    by (rule ext) (simp add: includeFavorites_def assms(3))
  have a: "findAllRecipes db' userId = findAllRecipes db userId"
    by (simp add: findAllRecipes_def i assms(2))
  have r: "findRecipesIn db' userId = findRecipesIn db userId"
    by (rule ext) (simp add: findRecipesIn_def i assms(2))
  have s: "scoreRecipe ?av' = scoreRecipe ?av"
    by (rule ext) (rule scoreRecipe_cong_set [OF assms(1) [symmetric]])
  have p: "suggestionPayload ?av' = suggestionPayload ?av"
    by (rule ext) (rule suggestionPayload_cong_set [OF assms(1) [symmetric]])
  have fp: "favoritePayload ?av' = favoritePayload ?av"
    by (rule ext) (rule favoritePayload_cong_set [OF assms(1) [symmetric]])
  have so: "suggestionsOf ?av' = suggestionsOf ?av"
    by (intro ext) (simp add: suggestionsOf_def p)
  show ?thesis
    unfolding handlerLocals_def Let_def f a r s fp so using e by simp
qed

section \<open>The rounded score against the exact quotient\<close>

lemma round_half_stable:
  fixes v :: rat and K T :: int
  assumes T: "0 < T" "T < 2 ^ 32"
    and close: "\<bar>v + 1 / 2 - of_int K / of_int (2 * T)\<bar> \<le> 200 / 2 ^ 53"
  shows "\<lfloor>v + 1 / 2\<rfloor> = K div (2 * T) \<or>
         (\<lfloor>v + 1 / 2\<rfloor> = K div (2 * T) - 1 \<and> 2 * T dvd K)"
proof -
  define n where "n = K div (2 * T)"
  define m where "m = K mod (2 * T)"
  define d :: rat where "d = v + 1 / 2 - of_int K / of_int (2 * T)"
  define w :: rat where "w = of_int (2 * T)"
  have w: "0 < w" "w < 2 ^ 33" using T by (simp_all add: w_def)
  have m: "0 \<le> m" "m < 2 * T" using T by (simp_all add: m_def)
  have K: "K = 2 * T * n + m" by (simp add: n_def m_def)
  have "(of_int K :: rat) = of_int (2 * T * n + m)" using K by (rule arg_cong)
  also have "\<dots> = w * of_int n + of_int m" by (simp add: w_def)
  finally have "(of_int K :: rat) = w * of_int n + of_int m" .
  then have frac: "of_int K / w = of_int n + of_int m / w"
    using w(1) by (simp add: field_simps)
  have "v + 1 / 2 = of_int K / w + d" by (simp add: d_def w_def)
  then have v: "v + 1 / 2 = of_int n + of_int m / w + d" by (simp only: frac)
  have d: "- (200 / 2 ^ 53) \<le> d" "d \<le> 200 / 2 ^ 53"
    using close unfolding d_def by linarith+
  have eps: "(200::rat) / 2 ^ 53 < 1 / w"
  proof -
    have "(200::rat) / 2 ^ 53 < 1 / 2 ^ 33" by simp
    also have "\<dots> < 1 / w" using w by (simp add: frac_less2)
    finally show ?thesis .
  qed
  show ?thesis
  proof (cases "m = 0")
    case True
    then have dv: "2 * T dvd K" by (simp add: m_def dvd_eq_mod_eq_0)
    have v': "v + 1 / 2 = of_int n + d" using v True by simp
    show ?thesis
    proof (cases "0 \<le> d")
      case True
      have "\<lfloor>v + 1 / 2\<rfloor> = n"
        by (rule floor_unique) (use True d(2) in \<open>simp_all add: v'\<close>)
      then show ?thesis by (simp add: n_def)
    next
      case False
      have "\<lfloor>v + 1 / 2\<rfloor> = n - 1"
        by (rule floor_unique) (use False d(1) in \<open>simp_all add: v'\<close>)
      then show ?thesis using dv by (simp add: n_def)
    qed
  next
    case False
    then have "1 \<le> m" "m \<le> 2 * T - 1" using m by simp_all
    then have "(of_int 1 :: rat) \<le> of_int m" "(of_int m :: rat) \<le> of_int (2 * T - 1)"
      by (simp_all only: of_int_le_iff)
    then have mr: "1 \<le> (of_int m :: rat)" "(of_int m :: rat) \<le> w - 1"
      by (simp_all add: w_def)
    have lo: "1 / w \<le> of_int m / w" using mr(1) w(1) by (simp add: divide_right_mono)
    have "of_int m / w \<le> (w - 1) / w" using mr(2) w(1) by (simp add: divide_right_mono)
    also have "\<dots> = 1 - 1 / w" using w(1) by (simp add: field_simps)
    finally have hi: "of_int m / w \<le> 1 - 1 / w" .
    have "\<lfloor>v + 1 / 2\<rfloor> = n"
    proof (rule floor_unique)
      show "of_int n \<le> v + 1 / 2" unfolding v using lo d(1) eps by linarith
      show "v + 1 / 2 < of_int n + 1" unfolding v using hi d(2) eps by linarith
    qed
    then show ?thesis by (simp add: n_def)
  qed
qed

lemma scoreValue_close:
  assumes "a \<le> t" "0 < t"
  shows "\<bar>scoreValue a t - 100 * of_nat a / of_nat t\<bar> \<le> 200 / 2 ^ 53"
proof -
  define q :: rat where "q = of_nat a / of_nat t"
  have q: "0 \<le> q" "q \<le> 1" using assms by (simp_all add: q_def)
  have r0: "0 \<le> rnd q" using q(1) by (rule rnd_nonneg)
  have "rnd q \<le> rnd 1" using q by (rule rnd_mono_nonneg)
  then have r1: "rnd q \<le> 1" by (simp only: rnd_1)
  have e1: "\<bar>rnd q - q\<bar> \<le> 1 / 2 ^ 53"
  proof -
    have "\<bar>rnd q - q\<bar> \<le> q / 2 ^ 53" using q(1) by (rule rnd_error)
    also have "\<dots> \<le> 1 / 2 ^ 53" using q(2) by (simp add: divide_right_mono)
    finally show ?thesis .
  qed
  have e2: "\<bar>rnd (rnd q * 100) - rnd q * 100\<bar> \<le> 100 / 2 ^ 53"
  proof -
    have "\<bar>rnd (rnd q * 100) - rnd q * 100\<bar> \<le> rnd q * 100 / 2 ^ 53"
      using r0 by (intro rnd_error) simp
    also have "\<dots> \<le> 100 / 2 ^ 53" using r1 by (simp add: divide_right_mono)
    finally show ?thesis .
  qed
  have "100 * of_nat a / of_nat t = q * 100" by (simp add: q_def)
  then show ?thesis unfolding scoreValue_def q_def [symmetric] using e1 e2 by linarith
qed

lemma spec_score_div:
  assumes "0 < t"
  shows "spec_compatibilityScore a t = (200 * int a + int t) div (2 * int t)"
proof -
  have "100 * of_nat a / (of_nat t :: rat) + 1 / 2
          = of_int (200 * int a + int t) / of_int (2 * int t)"
    using assms by (simp add: field_simps)
  then show ?thesis
    unfolding spec_compatibilityScore_def round_def by (simp only: floor_divide_of_int_eq)
qed

lemma scoreValue_round:
  assumes "a \<le> t" "0 < t" "t < 2 ^ 32"
  shows "\<lfloor>scoreValue a t + 1 / 2\<rfloor> = spec_compatibilityScore a t \<or>
         (\<lfloor>scoreValue a t + 1 / 2\<rfloor> = spec_compatibilityScore a t - 1 \<and>
          2 * t dvd 200 * a + t)"
proof -
  have T: "0 < int t" "int t < 2 ^ 32" using assms(2,3) by simp_all
  have "100 * of_nat a / (of_nat t :: rat) + 1 / 2
          = of_int (200 * int a + int t) / of_int (2 * int t)"
    using assms(2) by (simp add: field_simps)
  then have "\<bar>scoreValue a t + 1 / 2 - of_int (200 * int a + int t) / of_int (2 * int t)\<bar>
               = \<bar>scoreValue a t - 100 * of_nat a / of_nat t\<bar>"
    by (simp add: algebra_simps)
  also have "\<dots> \<le> 200 / 2 ^ 53" using assms(1,2) by (rule scoreValue_close)
  finally have "\<lfloor>scoreValue a t + 1 / 2\<rfloor> = (200 * int a + int t) div (2 * int t) \<or>
         (\<lfloor>scoreValue a t + 1 / 2\<rfloor> = (200 * int a + int t) div (2 * int t) - 1 \<and>
          2 * int t dvd 200 * int a + int t)"
    by (rule round_half_stable [OF T])
  moreover have "2 * int t dvd 200 * int a + int t \<longleftrightarrow> 2 * t dvd 200 * a + t"
    by (metis (no_types) int_dvd_int_iff of_nat_add of_nat_mult of_nat_numeral)
  ultimately show ?thesis by (simp add: spec_score_div [OF assms(2)])
qed

section \<open>Facts about the example databases\<close>

lemma js_sort_single [simp]: "js_sort cmp [x] = [x]"
  by (simp add: js_sort_def)

lemma single_recipe_response:
  assumes "findFridgeItems db u \<noteq> []" and "db_recipes db = [r]"
    and "rc_id r \<notin> favoriteIdsSetOf db u"
    and "0 < availableCount (availableIngredientIdsOf db u) (rc_ingredients r)"
  shows "resp_suggestions (getSuggestions db u) =
           [suggestionPayload (availableIngredientIdsOf db u)
              (scoreRecipe (availableIngredientIdsOf db u) (includeFavorites db u r))]"
proof -
  from assms(1) obtain l where l: "handlerLocals db u = Some l"
    using handlerLocals_None_iff [of db u] by (cases "handlerLocals db u") auto
  have fp: "lc_favoriteRecipesPayload l = []"
    using assms(2,3) by (simp add: handlerLocals_SomeD(1) [OF l] findRecipesIn_def)
  have "lc_suggestions l =
          [suggestionPayload (availableIngredientIdsOf db u)
              (scoreRecipe (availableIngredientIdsOf db u) (includeFavorites db u r))]"
    using assms(2,3,4)
    by (simp add: handlerLocals_SomeD(2) [OF l] fp findAllRecipes_def suggestionsOf_def
        js_gt0_score_iff)
  then show ?thesis by (simp add: getSuggestions_def l)
qed

lemma availableCount_mkRecipe:
  "availableCount av (rc_ingredients (mkRecipe n ids)) = length (filter (\<lambda>i. i \<in> set av) ids)"
  by (simp add: availableCount_def mkRecipe_def mkIngredient_def filter_map comp_def)

lemma length_ingredients_mkRecipe [simp]: "length (rc_ingredients (mkRecipe n ids)) = length ids"
  by (simp add: mkRecipe_def)

lemma rc_id_mkRecipe [simp]: "rc_id (mkRecipe n ids) = n"
  by (simp add: mkRecipe_def)

lemma ingredientName_inj [simp]: "ingredientName i = ingredientName j \<longleftrightarrow> i = j"
proof
  assume "ingredientName i = ingredientName j"
  then have "length (ingredientName i) = length (ingredientName j)" by (rule arg_cong)
  then show "i = j" by (simp add: ingredientName_def)
qed simp

lemma ingredientName_not_salt [simp]: "ingredientName i \<noteq> ''salt''"
  by (simp add: ingredientName_def)

lemma suggestion_score_value:
  assumes "0 < length (rc_ingredients r)"
  shows "rp_compatibilityScore (suggestionPayload av (scoreRecipe av r)) =
           Fin (of_int \<lfloor>scoreValue (availableCount av (rc_ingredients r))
                                     (length (rc_ingredients r)) + 1 / 2\<rfloor>)"
  using assms by (simp add: suggestionPayload_def sr_score_eq)

lemma scoreValue_1_201: "\<lfloor>scoreValue 1 201 + 1 / 2\<rfloor> = 0"
  by code_simp

lemma scoreValue_23_40: "\<lfloor>scoreValue 23 40 + 1 / 2\<rfloor> = 57"
  by code_simp

lemma banquet_available: "availableIngredientIdsOf banquet ''erin'' = [''salt'']"
  by (simp add: availableIngredientIdsOf_def findFridgeItems_def banquet_def mkFridgeItem_def)

lemma feast_counts:
  "availableCount [''salt''] (rc_ingredients feast) = 1" "length (rc_ingredients feast) = 201"
  by (simp_all add: feast_def availableCount_mkRecipe filter_map comp_def)

lemma potluck_available:
  "availableIngredientIdsOf potluck ''frank'' = map ingredientName [0..<23]"
  by (simp add: availableIngredientIdsOf_def findFridgeItems_def potluck_def mkFridgeItem_def
      comp_def)

lemma stew_counts:
  "availableCount (map ingredientName [0..<23]) (rc_ingredients stew) = 23"
  "length (rc_ingredients stew) = 40"
proof -
  have "[0..<40] = [0..<23] @ [23..<40]"
    using upt_add_eq_append [of 0 23 17] by simp
  then have "filter (\<lambda>k. k < 23) [0..<40] =
               filter (\<lambda>k. k < 23) [0..<23] @ filter (\<lambda>k. k < 23) [23..<40]"
    by (simp only: filter_append)
  also have "filter (\<lambda>k. k < 23) [0..<23] = [0..<23]" by (rule filter_True) simp
  also have "filter (\<lambda>k. k < 23) [23..<40] = []" by (rule filter_False) simp
  finally have "length (filter (\<lambda>k. k < 23) [0..<40]) = 23" by simp
  moreover have "(\<lambda>k. ingredientName k \<in> ingredientName ` {0..<23}) = (\<lambda>k. k < 23)"
    by (rule ext) auto
  ultimately show "availableCount (map ingredientName [0..<23]) (rc_ingredients stew) = 23"
    by (simp add: stew_def availableCount_mkRecipe filter_map comp_def)
  show "length (rc_ingredients stew) = 40" by (simp add: stew_def)
qed

subsection \<open>The kitchen\<close>

lemma kitchen_ann_combined:
  "map_option (map rp_id \<circ> lc_combinedSuggestions) (handlerLocals kitchen ''ann'')
     = Some [''D'', ''B'', ''A'']"
  "map_option (map rp_compatibilityScore \<circ> lc_combinedSuggestions)
     (handlerLocals kitchen ''ann'') = Some [Fin 100, Fin 100, Fin 67]"
  "map_option (map rp_missingIngredientsCount \<circ> lc_combinedSuggestions)
     (handlerLocals kitchen ''ann'') = Some [0, 0, 1]"
  by code_simp+

lemma kitchen_ann_response:
  "map rp_id (resp_suggestions (getSuggestions kitchen ''ann'')) = [''B'', ''A'']"
  "map rp_compatibilityScore (resp_suggestions (getSuggestions kitchen ''ann''))
     = [Fin 100, Fin 67]"
  "map rp_missingIngredientsCount (resp_suggestions (getSuggestions kitchen ''ann'')) = [0, 1]"
  by code_simp+

lemma kitchen_ann_favorites: "favoriteIdsSetOf kitchen ''ann'' = {''D''}"
  by (simp add: favoriteIdsSetOf_def findFavoriteRecipes_def kitchen_def mkFavorite_def)

lemma kitchen_ann_available: "availableIngredientIdsOf kitchen ''ann'' = [''tomato'', ''onion'']"
  by (simp add: availableIngredientIdsOf_def findFridgeItems_def kitchen_def mkFridgeItem_def)

lemma kitchen_ids: "map rc_id (db_recipes kitchen) = [''A'', ''B'', ''C'', ''D'', ''E'']"
  by (simp add: kitchen_def)

subsection \<open>The pantry\<close>

lemma pantry_available:
  "availableIngredientIdsOf pantry ''ann'' = [''rice'']"
  "availableIngredientIdsOf pantry ''carol'' = [''rice'']"
  "availableIngredientIdsOf pantry ''dave'' = [''rice'']"
  by (simp_all add: availableIngredientIdsOf_def findFridgeItems_def pantry_def
      mkFridgeItem_def)

lemma pantry_fridge:
  "findFridgeItems pantry ''ann'' \<noteq> []"
  "findFridgeItems pantry ''carol'' \<noteq> []"
  "findFridgeItems pantry ''dave'' \<noteq> []"
  by (simp_all add: findFridgeItems_def pantry_def mkFridgeItem_def)

lemma pantry_favorites:
  "favoriteIdsSetOf pantry ''ann'' = {}"
  "favoriteIdsSetOf pantry ''carol'' = set (take 10 riceDishes)"
  "favoriteIdsSetOf pantry ''dave'' = set (take 11 riceDishes)"
  by (simp_all add: favoriteIdsSetOf_def findFavoriteRecipes_def pantry_def mkFavorite_def
      filter_map comp_def)

lemma pantry_ids: "map rc_id (db_recipes pantry) = riceDishes"
  by (simp add: pantry_def comp_def)

lemma map_filter_key: "map f (filter (\<lambda>x. f x \<in> S) xs) = filter (\<lambda>i. i \<in> S) (map f xs)"
  by (simp add: filter_map comp_def)

lemma pantry_favorite_recipes:
  "map rc_id (filter (\<lambda>r. rc_id r \<in> favoriteIdsSetOf pantry ''carol'') (db_recipes pantry))
     = take 10 riceDishes"
  "map rc_id (filter (\<lambda>r. rc_id r \<in> favoriteIdsSetOf pantry ''dave'') (db_recipes pantry))
     = take 11 riceDishes"
  by (simp_all only: map_filter_key pantry_ids pantry_favorites) (simp_all add: riceDishes_def)

lemma pantry_positive:
  "r \<in> set (db_recipes pantry) \<Longrightarrow> 0 < availableCount [''rice''] (rc_ingredients r)"
  by (auto simp add: pantry_def availableCount_mkRecipe)

lemma length_suggestionsOf_eq:
  "length (suggestionsOf av favs fp scs) =
     min (length (filter (\<lambda>s. js_gt0 (sr_score s) \<and> rc_id (sr_recipe s) \<notin> favs) scs))
         (nat (max (10 - int (length fp)) 0))"
  by (simp add: suggestionsOf_def)

lemma pantry_ann_length: "length (resp_suggestions (getSuggestions pantry ''ann'')) = 10"
proof -
  obtain l where l: "handlerLocals pantry ''ann'' = Some l"
    using pantry_fridge(1) handlerLocals_None_iff [of pantry "''ann''"]
    by (cases "handlerLocals pantry ''ann''") auto
  have fp: "lc_favoriteRecipesPayload l = []"
    by (simp add: handlerLocals_SomeD(1) [OF l] findRecipesIn_def pantry_favorites)
  let ?scs = "map (scoreRecipe [''rice'']) (findAllRecipes pantry ''ann'')"
  have "filter (\<lambda>s. js_gt0 (sr_score s) \<and> rc_id (sr_recipe s) \<notin> {}) ?scs = ?scs"
    by (rule filter_True)
       (auto simp add: findAllRecipes_def js_gt0_score_iff dest: pantry_positive)
  moreover have "length ?scs = 12"
    using pantry_ids [THEN arg_cong, of length]
    by (simp add: findAllRecipes_def riceDishes_def)
  ultimately show ?thesis
    by (simp add: getSuggestions_def l handlerLocals_SomeD(2) [OF l] fp pantry_available
        pantry_favorites length_suggestionsOf_eq)
qed


section \<open>Favorites in the result\<close>

text \<open>
  Claim C1 says that, with a non-empty inventory, every favorite recipe appears exactly
  once in the result that \<^verbatim>\<open>GET /recipes/suggestions\<close> returns. The handler builds
  \<^verbatim>\<open>combinedSuggestions\<close> from the favorites and the suggestions at lines 374 to 377
  and never reads it: line 382 sends \<^verbatim>\<open>suggestions\<close>, from which line 336 has removed
  every favorite. Ann holds tomato and onion and has marked D, a recipe of the catalog.
  D is the first entry of the combined list, and the response is B, A without D.
\<close>

theorem favorite_missing_from_response:
  "findFridgeItems kitchen ''ann'' \<noteq> [] \<and>
   ''D'' \<in> favoriteIdsSetOf kitchen ''ann'' \<and>
   ''D'' \<in> rc_id ` set (db_recipes kitchen) \<and>
   map_option (map rp_id \<circ> lc_combinedSuggestions) (handlerLocals kitchen ''ann'')
     = Some [''D'', ''B'', ''A''] \<and>
   map rp_id (resp_suggestions (getSuggestions kitchen ''ann'')) = [''B'', ''A''] \<and>
   ''D'' \<notin> rp_id ` set (resp_suggestions (getSuggestions kitchen ''ann''))"
proof -
  have f: "findFridgeItems kitchen ''ann'' \<noteq> []"
    by (simp add: findFridgeItems_def kitchen_def mkFridgeItem_def)
  have c: "''D'' \<in> rc_id ` set (db_recipes kitchen)"
    using kitchen_ids [THEN arg_cong, of set] by simp
  have "set (map rp_id (resp_suggestions (getSuggestions kitchen ''ann''))) = {''B'', ''A''}"
    by (simp only: kitchen_ann_response(1)) simp
  then have "''D'' \<notin> rp_id ` set (resp_suggestions (getSuggestions kitchen ''ann''))"
    by simp
  with f c show ?thesis
    by (simp add: kitchen_ann_favorites kitchen_ann_combined(1) kitchen_ann_response(1))
qed

section \<open>The score carried by a favorite\<close>

text \<open>
  Claim C2 says that a favorite in the suggestion output carries its computed score and
  its count of missing ingredients. The payload of a favorite is built at lines 300 to 332
  with the constants 100 and 0: Ann holds tomato and onion and has marked D, which needs
  chicken only. The handler scores D at 0 with 1 missing ingredient, and the entry of D in
  the combined list carries 100 and 0.
\<close>

theorem favorite_forced_score_counterexample:
  "''D'' \<in> favoriteIdsSetOf kitchen ''ann'' \<and>
   map_option (map rp_id \<circ> lc_combinedSuggestions) (handlerLocals kitchen ''ann'')
     = Some [''D'', ''B'', ''A''] \<and>
   map_option (map rp_compatibilityScore \<circ> lc_combinedSuggestions)
     (handlerLocals kitchen ''ann'') = Some [Fin 100, Fin 100, Fin 67] \<and>
   map_option (map rp_missingIngredientsCount \<circ> lc_combinedSuggestions)
     (handlerLocals kitchen ''ann'') = Some [0, 0, 1] \<and>
   sr_score (scoreRecipe (availableIngredientIdsOf kitchen ''ann'')
               (includeFavorites kitchen ''ann'' (mkRecipe ''D'' [''chicken'']))) = Fin 0 \<and>
   sr_missingIngredients (scoreRecipe (availableIngredientIdsOf kitchen ''ann'')
               (includeFavorites kitchen ''ann'' (mkRecipe ''D'' [''chicken'']))) = 1 \<and>
   spec_compatibilityScore 0 1 = 0"
proof -
  have "sr_score (scoreRecipe [''tomato'', ''onion'']
               (includeFavorites kitchen ''ann'' (mkRecipe ''D'' [''chicken'']))) = Fin 0"
    by (simp add: sr_score_eq availableCount_mkRecipe scoreValue_def rnd_def)
  moreover have "sr_missingIngredients (scoreRecipe [''tomato'', ''onion'']
               (includeFavorites kitchen ''ann'' (mkRecipe ''D'' [''chicken'']))) = 1"
    by (simp add: sr_missing_eq availableCount_mkRecipe)
  moreover have "spec_compatibilityScore 0 1 = 0" by code_simp
  ultimately show ?thesis
    by (simp add: kitchen_ann_combined kitchen_ann_favorites kitchen_ann_available)
qed

text \<open>
  Claim C2, amended. Every entry of the combined list whose recipe is a favorite carries
  \<open>isFavorite = true\<close>, \<open>compatibilityScore = 100\<close> and \<open>missingIngredientsCount = 0\<close>,
  whatever the inventory is.
\<close>

theorem favorites_carry_fixed_score:
  "\<forall>l. handlerLocals db userId = Some l \<longrightarrow>
     (\<forall>p\<in>set (lc_combinedSuggestions l).
        rp_id p \<in> favoriteIdsSetOf db userId \<longrightarrow>
          rp_isFavorite p \<and> rp_compatibilityScore p = Fin 100 \<and>
          rp_missingIngredientsCount p = 0)"
proof (intro allI impI ballI)
  fix l p
  assume l: "handlerLocals db userId = Some l" and p: "p \<in> set (lc_combinedSuggestions l)"
    and f: "rp_id p \<in> favoriteIdsSetOf db userId"
  from p have "p \<in> set (lc_favoriteRecipesPayload l) \<or> p \<in> set (lc_suggestions l)"
    unfolding handlerLocals_SomeD(3) [OF l] by (auto dest: in_set_takeD)
  with f suggestion_ids_not_favorite [OF l] have "p \<in> set (lc_favoriteRecipesPayload l)"
    by blast
  then show "rp_isFavorite p \<and> rp_compatibilityScore p = Fin 100 \<and>
          rp_missingIngredientsCount p = 0"
    unfolding handlerLocals_SomeD(1) [OF l] by (auto simp add: favoritePayload_def)
qed

theorem favorites_carry_fixed_score_witness:
  "handlerLocals kitchen ''ann'' \<noteq> None \<and>
   lc_combinedSuggestions (the (handlerLocals kitchen ''ann'')) \<noteq> [] \<and>
   rp_id (hd (lc_combinedSuggestions (the (handlerLocals kitchen ''ann'')))) = ''D'' \<and>
   ''D'' \<in> favoriteIdsSetOf kitchen ''ann'' \<and>
   rp_isFavorite (hd (lc_combinedSuggestions (the (handlerLocals kitchen ''ann'')))) \<and>
   rp_compatibilityScore (hd (lc_combinedSuggestions (the (handlerLocals kitchen ''ann''))))
     = Fin 100 \<and>
   rp_missingIngredientsCount (hd (lc_combinedSuggestions (the (handlerLocals kitchen ''ann''))))
     = 0"
proof -
  from kitchen_ann_combined(1) obtain l where l: "handlerLocals kitchen ''ann'' = Some l"
    and ids: "map rp_id (lc_combinedSuggestions l) = [''D'', ''B'', ''A'']" by auto
  from ids obtain p ps where c: "lc_combinedSuggestions l = p # ps" and p: "rp_id p = ''D''"
    by (cases "lc_combinedSuggestions l") auto
  have "p \<in> set (lc_combinedSuggestions l)" by (simp add: c)
  moreover have "rp_id p \<in> favoriteIdsSetOf kitchen ''ann''"
    by (simp add: p kitchen_ann_favorites)
  ultimately have "rp_isFavorite p \<and> rp_compatibilityScore p = Fin 100 \<and>
      rp_missingIngredientsCount p = 0"
    using favorites_carry_fixed_score [of kitchen "''ann''"] l by blast
  then show ?thesis by (simp add: l c p kitchen_ann_favorites)
qed

section \<open>The attached score\<close>

text \<open>
  Claim C3 says that the attached score is \<open>round (100 * available / total)\<close>. The handler
  computes \<^verbatim>\<open>Math.round((available / total) * 100)\<close> on doubles, and both operations
  round: Frank holds 23 of the 40 ingredients of the stew, the exact value is 57.5, the
  double is 57.49999999999999 and the attached score is 57, where the claim gives 58.
\<close>

theorem tie_rounds_down_counterexample:
  "map rp_id (resp_suggestions (getSuggestions potluck ''frank'')) = [''stew''] \<and>
   availableCount (availableIngredientIdsOf potluck ''frank'') (rc_ingredients stew) = 23 \<and>
   length (rc_ingredients stew) = 40 \<and>
   map rp_compatibilityScore (resp_suggestions (getSuggestions potluck ''frank'')) = [Fin 57] \<and>
   spec_compatibilityScore 23 40 = 58"
proof -
  let ?av = "map ingredientName [0..<23]"
  have nf: "favoriteIdsSetOf potluck ''frank'' = {}"
    by (simp add: favoriteIdsSetOf_def findFavoriteRecipes_def potluck_def)
  have "resp_suggestions (getSuggestions potluck ''frank'') =
          [suggestionPayload ?av (scoreRecipe ?av (includeFavorites potluck ''frank'' stew))]"
    unfolding potluck_available [symmetric]
    by (rule single_recipe_response)
       (simp_all add: nf potluck_available stew_counts,
        simp_all add: potluck_def findFridgeItems_def mkFridgeItem_def)
  moreover have "rp_compatibilityScore
        (suggestionPayload ?av (scoreRecipe ?av (includeFavorites potluck ''frank'' stew))) = Fin 57"
    by (simp add: suggestion_score_value stew_counts scoreValue_23_40)
  moreover have "rp_id
        (suggestionPayload ?av (scoreRecipe ?av (includeFavorites potluck ''frank'' stew))) = ''stew''"
    by (simp add: suggestionPayload_def stew_def)
  moreover have "spec_compatibilityScore 23 40 = 58" by code_simp
  ultimately show ?thesis by (simp add: potluck_available stew_counts)
qed

text \<open>
  Claim C3, amended. For every inventory and every recipe with \<open>0 < totalCount < 2 ^ 32\<close>
  (the bound on the length of an array), the \<open>compatibilityScore\<close> that the handler
  attaches to the recipe is an integer between 0 and 100. It is equal to
  \<open>round (100 * availableCount / totalCount)\<close>, except that it may be one less when
  \<open>100 * availableCount / totalCount\<close> lies exactly halfway between two integers.
\<close>

theorem attached_score_near_exact_score:
  assumes "0 < length (rc_ingredients r)" and "length (rc_ingredients r) < 2 ^ 32"
  shows "\<exists>n. rp_compatibilityScore (suggestionPayload av (scoreRecipe av r)) = Fin (of_int n) \<and>
             0 \<le> n \<and> n \<le> 100 \<and>
             (n = spec_compatibilityScore (availableCount av (rc_ingredients r))
                                          (length (rc_ingredients r)) \<or>
              (n = spec_compatibilityScore (availableCount av (rc_ingredients r))
                                           (length (rc_ingredients r)) - 1 \<and>
               2 * length (rc_ingredients r)
                 dvd 200 * availableCount av (rc_ingredients r) + length (rc_ingredients r)))"
proof -
  let ?a = "availableCount av (rc_ingredients r)" and ?t = "length (rc_ingredients r)"
  let ?n = "\<lfloor>scoreValue ?a ?t + 1 / 2\<rfloor>"
  have le: "?a \<le> ?t" by (rule availableCount_le)
  have v: "rp_compatibilityScore (suggestionPayload av (scoreRecipe av r)) = Fin (of_int ?n)"
    using assms(1) by (rule suggestion_score_value)
  obtain n where n: "rp_compatibilityScore (suggestionPayload av (scoreRecipe av r))
      = Fin (of_int n)" "0 \<le> n" "n \<le> 100"
    using suggestion_score_integer [of av r] by blast
  from v n(1) have "n = ?n" by simp
  with n(2,3) have b: "0 \<le> ?n" "?n \<le> 100" by simp_all
  from scoreValue_round [OF le assms] v b show ?thesis by blast
qed

theorem attached_score_near_exact_score_witness:
  "0 < length (rc_ingredients (includeFavorites potluck ''frank'' stew)) \<and>
   length (rc_ingredients (includeFavorites potluck ''frank'' stew)) < 2 ^ 32 \<and>
   (\<exists>n. rp_compatibilityScore
          (suggestionPayload (map ingredientName [0..<23])
             (scoreRecipe (map ingredientName [0..<23])
                (includeFavorites potluck ''frank'' stew))) = Fin (of_int n) \<and>
        0 \<le> n \<and> n \<le> 100 \<and>
        (n = spec_compatibilityScore 23 40 \<or>
         (n = spec_compatibilityScore 23 40 - 1 \<and> 2 * (40::nat) dvd 200 * 23 + 40))) \<and>
   rp_compatibilityScore
     (suggestionPayload (map ingredientName [0..<23])
        (scoreRecipe (map ingredientName [0..<23]) (includeFavorites potluck ''frank'' stew)))
     = Fin 57 \<and>
   spec_compatibilityScore 23 40 = 58"
proof -
  let ?r = "includeFavorites potluck ''frank'' stew" and ?av = "map ingredientName [0..<23]"
  have h1: "0 < length (rc_ingredients ?r)" by (simp add: stew_counts)
  have h2: "length (rc_ingredients ?r) < 2 ^ 32" by (simp add: stew_counts)
  have s: "spec_compatibilityScore 23 40 = 58" by code_simp
  have v: "rp_compatibilityScore (suggestionPayload ?av (scoreRecipe ?av ?r)) = Fin 57"
    by (simp add: suggestion_score_value stew_counts scoreValue_23_40)
  from attached_score_near_exact_score [OF h1 h2, of ?av]
  have "\<exists>n. rp_compatibilityScore (suggestionPayload ?av (scoreRecipe ?av ?r)) = Fin (of_int n) \<and>
        0 \<le> n \<and> n \<le> 100 \<and>
        (n = spec_compatibilityScore 23 40 \<or>
         (n = spec_compatibilityScore 23 40 - 1 \<and> 2 * (40::nat) dvd 200 * 23 + 40))"
    by (simp only: rc_ingredients_includeFavorites stew_counts)
  with h1 h2 v s show ?thesis by blast
qed

section \<open>Empty inventory\<close>

text \<open>
  Claim C4. If the user holds no fridge item, the \<^verbatim>\<open>suggestions\<close> field of the response
  is the empty list, whatever the catalog and the favorite marks are.
\<close>

theorem empty_inventory_empty_result:
  "findFridgeItems db userId = [] \<Longrightarrow> resp_suggestions (getSuggestions db userId) = []"
  by (simp add: getSuggestions_def handlerLocals_None_iff [THEN iffD2])

theorem empty_inventory_empty_result_witness:
  "findFridgeItems kitchen ''bob'' = [] \<and> db_recipes kitchen \<noteq> [] \<and>
   findFavoriteRecipes kitchen ''bob'' \<noteq> [] \<and>
   resp_suggestions (getSuggestions kitchen ''bob'') = []"
proof -
  have h: "findFridgeItems kitchen ''bob'' = []"
    by (simp add: findFridgeItems_def kitchen_def mkFridgeItem_def)
  have "findFavoriteRecipes kitchen ''bob'' \<noteq> []"
    by (simp add: findFavoriteRecipes_def kitchen_def mkFavorite_def)
  with h empty_inventory_empty_result [OF h] show ?thesis
    by (simp add: kitchen_def)
qed

section \<open>Scores of the suggested recipes\<close>

text \<open>
  Claim C5 says that no non-favorite recipe whose attached score is 0 appears in the
  result. The filter at line 336 tests the score before \<^verbatim>\<open>Math.round\<close> is applied at
  line 370: Erin holds salt, 1 of the 201 ingredients of the feast; the score 0.4975 passes
  the filter and the feast is returned with \<open>compatibilityScore = 0\<close>.
\<close>

theorem rounded_score_zero_counterexample:
  "map rp_id (resp_suggestions (getSuggestions banquet ''erin'')) = [''feast''] \<and>
   ''feast'' \<notin> favoriteIdsSetOf banquet ''erin'' \<and>
   map rp_isFavorite (resp_suggestions (getSuggestions banquet ''erin'')) = [False] \<and>
   map rp_compatibilityScore (resp_suggestions (getSuggestions banquet ''erin'')) = [Fin 0]"
proof -
  have nf: "favoriteIdsSetOf banquet ''erin'' = {}"
    by (simp add: favoriteIdsSetOf_def findFavoriteRecipes_def banquet_def)
  have "resp_suggestions (getSuggestions banquet ''erin'') =
          [suggestionPayload [''salt'']
             (scoreRecipe [''salt''] (includeFavorites banquet ''erin'' feast))]"
    unfolding banquet_available [symmetric]
    by (rule single_recipe_response)
       (simp_all add: nf banquet_available feast_counts,
        simp_all add: banquet_def findFridgeItems_def mkFridgeItem_def)
  moreover have "rp_compatibilityScore (suggestionPayload [''salt'']
             (scoreRecipe [''salt''] (includeFavorites banquet ''erin'' feast))) = Fin 0"
    using scoreValue_1_201 by (simp add: suggestion_score_value feast_counts)
  moreover have "rp_id (suggestionPayload [''salt'']
             (scoreRecipe [''salt''] (includeFavorites banquet ''erin'' feast))) = ''feast''"
    by (simp add: suggestionPayload_def feast_def)
  moreover have "\<not> rp_isFavorite (suggestionPayload [''salt'']
             (scoreRecipe [''salt''] (includeFavorites banquet ''erin'' feast)))"
    by (simp add: suggestionPayload_def includeFavorites_def banquet_def)
  ultimately show ?thesis by (simp add: nf)
qed

text \<open>
  Claim C5, amended. No non-favorite recipe without an available ingredient (a score of 0
  before rounding) appears in the result: every entry of the \<^verbatim>\<open>suggestions\<close> field is a
  non-favorite with at least one ingredient marked available and with fewer missing
  ingredients than ingredients.
\<close>

theorem suggestions_have_available_ingredient:
  "\<forall>p\<in>set (resp_suggestions (getSuggestions db userId)).
      rp_id p \<notin> favoriteIdsSetOf db userId \<and>
      list_ex ip_available (rp_ingredients p) \<and>
      rp_missingIngredientsCount p < length (rp_ingredients p)"
proof
  fix p assume "p \<in> set (resp_suggestions (getSuggestions db userId))"
  from response_memberD [OF this] obtain r where r: "r \<in> set (db_recipes db)"
    "p = suggestionPayload (availableIngredientIdsOf db userId)
           (scoreRecipe (availableIngredientIdsOf db userId) (includeFavorites db userId r))"
    "0 < availableCount (availableIngredientIdsOf db userId) (rc_ingredients r)"
    "rc_id r \<notin> favoriteIdsSetOf db userId" by blast
  let ?av = "availableIngredientIdsOf db userId"
  from r(3) obtain ri where ri: "ri \<in> set (rc_ingredients r)" "ri_ingredientId ri \<in> set ?av"
    by (auto simp add: availableCount_def filter_empty_conv)
  have "ingredientPayloadOf ?av ri \<in> set (rp_ingredients p)"
    using ri(1) by (simp add: r(2) suggestionPayload_def)
  moreover have "ip_available (ingredientPayloadOf ?av ri)"
    using ri(2) by (simp add: ingredientPayloadOf_def)
  ultimately have "list_ex ip_available (rp_ingredients p)" unfolding list_ex_iff by blast
  moreover have "rp_missingIngredientsCount p < length (rp_ingredients p)"
    using r(3) availableCount_le [of ?av "rc_ingredients r"]
    by (simp add: r(2) suggestionPayload_def sr_missing_eq)
  moreover have "rp_id p \<notin> favoriteIdsSetOf db userId"
    using r(4) by (simp add: r(2) suggestionPayload_def)
  ultimately show "rp_id p \<notin> favoriteIdsSetOf db userId \<and>
      list_ex ip_available (rp_ingredients p) \<and>
      rp_missingIngredientsCount p < length (rp_ingredients p)" by blast
qed

theorem suggestions_have_available_ingredient_witness:
  "resp_suggestions (getSuggestions kitchen ''ann'') \<noteq> [] \<and>
   rp_id (hd (resp_suggestions (getSuggestions kitchen ''ann''))) = ''B'' \<and>
   ''B'' \<notin> favoriteIdsSetOf kitchen ''ann'' \<and>
   list_ex ip_available (rp_ingredients (hd (resp_suggestions (getSuggestions kitchen ''ann'')))) \<and>
   rp_missingIngredientsCount (hd (resp_suggestions (getSuggestions kitchen ''ann'')))
     < length (rp_ingredients (hd (resp_suggestions (getSuggestions kitchen ''ann''))))"
proof -
  from kitchen_ann_response(1) obtain p ps
    where r: "resp_suggestions (getSuggestions kitchen ''ann'') = p # ps" and p: "rp_id p = ''B''"
    by (cases "resp_suggestions (getSuggestions kitchen ''ann'')") auto
  have "p \<in> set (resp_suggestions (getSuggestions kitchen ''ann''))" by (simp add: r)
  with suggestions_have_available_ingredient [of kitchen "''ann''"]
  have "rp_id p \<notin> favoriteIdsSetOf kitchen ''ann'' \<and> list_ex ip_available (rp_ingredients p) \<and>
      rp_missingIngredientsCount p < length (rp_ingredients p)" by blast
  then show ?thesis by (simp add: r p)
qed

section \<open>The result limit\<close>

text \<open>
  Claim C6. The \<^verbatim>\<open>suggestions\<close> field of the response never holds more than 10
  entries, and neither does the combined list of favorites and suggestions that the
  handler builds at line 374.
\<close>

theorem result_length_le_limit:
  "length (resp_suggestions (getSuggestions db userId)) \<le> 10 \<and>
   (\<forall>l. handlerLocals db userId = Some l \<longrightarrow> length (lc_combinedSuggestions l) \<le> 10)"
proof
  show "length (resp_suggestions (getSuggestions db userId)) \<le> 10"
  proof (cases "handlerLocals db userId")
    case None
    then show ?thesis by (simp add: getSuggestions_def)
  next
    case (Some l)
    have "length (lc_suggestions l)
            \<le> nat (max (10 - int (length (lc_favoriteRecipesPayload l))) 0)"
      unfolding handlerLocals_SomeD(2) [OF Some] by (rule length_suggestionsOf)
    then show ?thesis using Some by (simp add: getSuggestions_def)
  qed
next
  show "\<forall>l. handlerLocals db userId = Some l \<longrightarrow> length (lc_combinedSuggestions l) \<le> 10"
    by (auto simp add: handlerLocals_SomeD(3))
qed

theorem result_length_le_limit_witness:
  "length (db_recipes pantry) = 12 \<and>
   length (resp_suggestions (getSuggestions pantry ''ann'')) = 10 \<and>
   handlerLocals pantry ''ann'' \<noteq> None \<and>
   length (lc_combinedSuggestions (the (handlerLocals pantry ''ann''))) \<le> 10"
proof -
  obtain l where l: "handlerLocals pantry ''ann'' = Some l"
    using pantry_fridge(1) handlerLocals_None_iff [of pantry "''ann''"]
    by (cases "handlerLocals pantry ''ann''") auto
  have "length (db_recipes pantry) = 12"
    using pantry_ids [THEN arg_cong, of length] by (simp add: riceDishes_def)
  moreover have "length (lc_combinedSuggestions l) \<le> 10"
    using result_length_le_limit [of pantry "''ann''"] l by blast
  ultimately show ?thesis using pantry_ann_length by (simp add: l)
qed

section \<open>The order of the suggestions\<close>

text \<open>
  Claim C7. The entries of the \<^verbatim>\<open>suggestions\<close> field are all non-favorites, their
  attached scores are integers, and no entry has a strictly higher attached score than an
  entry before it. The same order holds among the non-favorite entries of the combined
  list.
\<close>

theorem suggestions_sorted_by_score_desc:
  "sorted_wrt (\<lambda>p q. \<not> js_lt (rp_compatibilityScore p) (rp_compatibilityScore q))
     (resp_suggestions (getSuggestions db userId)) \<and>
   (\<forall>p\<in>set (resp_suggestions (getSuggestions db userId)).
      rp_id p \<notin> favoriteIdsSetOf db userId \<and>
      (\<exists>n. rp_compatibilityScore p = Fin (of_int n))) \<and>
   (\<forall>l. handlerLocals db userId = Some l \<longrightarrow>
      sorted_wrt (\<lambda>p q. \<not> js_lt (rp_compatibilityScore p) (rp_compatibilityScore q))
        (filter (\<lambda>p. rp_id p \<notin> favoriteIdsSetOf db userId) (lc_combinedSuggestions l)))"
proof (intro conjI ballI allI impI)
  show sorted: "sorted_wrt (\<lambda>p q. \<not> js_lt (rp_compatibilityScore p) (rp_compatibilityScore q))
     (resp_suggestions (getSuggestions db userId))"
  proof (cases "handlerLocals db userId")
    case None
    then show ?thesis by (simp add: getSuggestions_def)
  next
    case (Some l)
    then show ?thesis
      by (simp add: getSuggestions_def handlerLocals_SomeD(2) [OF Some] suggestionsOf_sorted)
  qed
  fix p assume p: "p \<in> set (resp_suggestions (getSuggestions db userId))"
  from response_memberD [OF p] show "rp_id p \<notin> favoriteIdsSetOf db userId"
    by (auto simp add: suggestionPayload_def)
  from response_memberD [OF p] suggestion_score_integer
  show "\<exists>n. rp_compatibilityScore p = Fin (of_int n)" by blast
next
  fix l assume l: "handlerLocals db userId = Some l"
  let ?P = "\<lambda>p. rp_id p \<notin> favoriteIdsSetOf db userId"
  let ?R = "\<lambda>p q. \<not> js_lt (rp_compatibilityScore p) (rp_compatibilityScore q)"
  have sg: "sorted_wrt ?R (lc_suggestions l)"
    by (simp add: handlerLocals_SomeD(2) [OF l] suggestionsOf_sorted)
  have "filter ?P (take 10 (lc_favoriteRecipesPayload l)) = []"
    using favorite_ids_favorite [OF l] by (auto simp add: filter_empty_conv dest: in_set_takeD)
  then have "filter ?P (lc_combinedSuggestions l) =
        filter ?P (take (10 - length (lc_favoriteRecipesPayload l)) (lc_suggestions l))"
    by (simp add: handlerLocals_SomeD(3) [OF l])
  moreover have "sorted_wrt ?R (take (10 - length (lc_favoriteRecipesPayload l)) (lc_suggestions l))"
    using sg by (rule sorted_wrt_take)
  ultimately show "sorted_wrt ?R (filter ?P (lc_combinedSuggestions l))"
    by (simp add: sorted_wrt_filter)
qed

theorem suggestions_sorted_by_score_desc_witness:
  "map rp_compatibilityScore (resp_suggestions (getSuggestions kitchen ''ann''))
     = [Fin 100, Fin 67] \<and>
   sorted_wrt (\<lambda>p q. \<not> js_lt (rp_compatibilityScore p) (rp_compatibilityScore q))
     (resp_suggestions (getSuggestions kitchen ''ann'')) \<and>
   handlerLocals kitchen ''ann'' \<noteq> None \<and>
   sorted_wrt (\<lambda>p q. \<not> js_lt (rp_compatibilityScore p) (rp_compatibilityScore q))
     (filter (\<lambda>p. rp_id p \<notin> favoriteIdsSetOf kitchen ''ann'')
        (lc_combinedSuggestions (the (handlerLocals kitchen ''ann''))))"
proof -
  note S = suggestions_sorted_by_score_desc [of kitchen "''ann''"]
  from kitchen_ann_combined(1) obtain l where l: "handlerLocals kitchen ''ann'' = Some l"
    by auto
  from S l have "sorted_wrt (\<lambda>p q. \<not> js_lt (rp_compatibilityScore p) (rp_compatibilityScore q))
     (filter (\<lambda>p. rp_id p \<notin> favoriteIdsSetOf kitchen ''ann'') (lc_combinedSuggestions l))"
    by blast
  with S kitchen_ann_response(2) show ?thesis by (simp add: l)
qed

section \<open>Recipes without ingredients\<close>

text \<open>
  Claim C8. For a recipe whose list of ingredients is empty, the score is the number 0:
  the guard \<^verbatim>\<open>totalIngredients > 0\<close> keeps the handler from dividing, where \<^verbatim>\<open>0 / 0\<close>
  would give NaN (by \<open>sr_score_finite\<close> the score of every recipe is a finite number).
  Its rounded score is 0. When the recipe is in the catalog and recipe ids are distinct,
  it is not in the \<^verbatim>\<open>suggestions\<close> field; and no entry of that field has an empty list
  of ingredients.
\<close>

theorem empty_recipe_scores_zero_and_is_not_suggested:
  assumes "rc_ingredients r = []"
  shows "sr_score (scoreRecipe av (includeFavorites db userId r)) = Fin 0 \<and>
         rp_compatibilityScore
           (suggestionPayload av (scoreRecipe av (includeFavorites db userId r))) = Fin 0 \<and>
         (r \<in> set (db_recipes db) \<and> distinct (map rc_id (db_recipes db)) \<longrightarrow>
            (\<forall>p\<in>set (resp_suggestions (getSuggestions db userId)). rp_id p \<noteq> rc_id r)) \<and>
         (\<forall>p\<in>set (resp_suggestions (getSuggestions db userId)). rp_ingredients p \<noteq> [])"
proof (intro conjI ballI impI)
  show z: "sr_score (scoreRecipe av (includeFavorites db userId r)) = Fin 0"
    using assms by (simp add: sr_score_eq)
  show "rp_compatibilityScore
           (suggestionPayload av (scoreRecipe av (includeFavorites db userId r))) = Fin 0"
    by (simp add: suggestionPayload_def z js_round_zero del: js_round.simps)
next
  fix p
  assume cat: "r \<in> set (db_recipes db) \<and> distinct (map rc_id (db_recipes db))"
    and "p \<in> set (resp_suggestions (getSuggestions db userId))"
  from response_memberD [OF this(2)] obtain r' where r': "r' \<in> set (db_recipes db)"
    "p = suggestionPayload (availableIngredientIdsOf db userId)
           (scoreRecipe (availableIngredientIdsOf db userId) (includeFavorites db userId r'))"
    "0 < availableCount (availableIngredientIdsOf db userId) (rc_ingredients r')" by blast
  from r'(3) have ne: "rc_ingredients r' \<noteq> []" by (auto simp add: availableCount_def)
  show "rp_id p \<noteq> rc_id r"
  proof
    assume "rp_id p = rc_id r"
    then have "rc_id r' = rc_id r" by (simp add: r'(2) suggestionPayload_def)
    with cat r'(1) have "r' = r" by (simp add: distinct_map inj_on_def)
    with ne assms show False by simp
  qed
next
  fix p assume "p \<in> set (resp_suggestions (getSuggestions db userId))"
  from response_memberD [OF this] obtain r' where r':
    "p = suggestionPayload (availableIngredientIdsOf db userId)
           (scoreRecipe (availableIngredientIdsOf db userId) (includeFavorites db userId r'))"
    "0 < availableCount (availableIngredientIdsOf db userId) (rc_ingredients r')" by blast
  from r'(2) have "rc_ingredients r' \<noteq> []" by (auto simp add: availableCount_def)
  then show "rp_ingredients p \<noteq> []" by (simp add: r'(1) suggestionPayload_def)
qed

theorem empty_recipe_scores_zero_and_is_not_suggested_witness:
  "mkRecipe ''E'' [] \<in> set (db_recipes kitchen) \<and>
   rc_ingredients (mkRecipe ''E'' []) = [] \<and>
   distinct (map rc_id (db_recipes kitchen)) \<and>
   js_div_length 0 0 = NaN \<and>
   sr_score (scoreRecipe [''tomato'', ''onion'']
               (includeFavorites kitchen ''ann'' (mkRecipe ''E'' []))) = Fin 0 \<and>
   rp_compatibilityScore (suggestionPayload [''tomato'', ''onion'']
     (scoreRecipe [''tomato'', ''onion''] (includeFavorites kitchen ''ann'' (mkRecipe ''E'' []))))
     = Fin 0 \<and>
   ''E'' \<notin> rp_id ` set (resp_suggestions (getSuggestions kitchen ''ann''))"
proof -
  have m: "mkRecipe ''E'' [] \<in> set (db_recipes kitchen)" by (simp add: kitchen_def)
  have e: "rc_ingredients (mkRecipe ''E'' []) = []" by (simp add: mkRecipe_def)
  have d: "distinct (map rc_id (db_recipes kitchen))" by (simp add: kitchen_ids)
  note T = empty_recipe_scores_zero_and_is_not_suggested
             [OF e, of "[''tomato'', ''onion'']" kitchen "''ann''"]
  from T m d have "''E'' \<notin> rp_id ` set (resp_suggestions (getSuggestions kitchen ''ann''))"
    by (auto simp add: image_iff)
  with T m e d show ?thesis by (simp add: js_div_length_def)
qed

section \<open>Quantities, units and expiry dates\<close>

text \<open>
  Claim C9. Two databases with the same recipes and favorite marks, in which the user
  holds the same set of ingredient references, give the same response: the quantity, the
  unit and the expiry date of a fridge item, and the number of items per ingredient, have
  no influence.
\<close>

theorem quantities_do_not_matter:
  assumes "set (map fi_ingredientId (findFridgeItems db userId)) =
           set (map fi_ingredientId (findFridgeItems db' userId))"
    and "db_recipes db' = db_recipes db"
    and "db_favoriteRecipes db' = db_favoriteRecipes db"
  shows "getSuggestions db' userId = getSuggestions db userId"
proof -
  have "handlerLocals db' userId = handlerLocals db userId"
    using assms(1) [folded availableIngredientIdsOf_def] assms(2,3)
    by (rule handlerLocals_cong_set)
  then show ?thesis by (simp add: getSuggestions_def)
qed

theorem quantities_do_not_matter_witness:
  "set (map fi_ingredientId (findFridgeItems kitchen ''ann'')) =
     set (map fi_ingredientId (findFridgeItems restockedKitchen ''ann'')) \<and>
   db_recipes restockedKitchen = db_recipes kitchen \<and>
   db_favoriteRecipes restockedKitchen = db_favoriteRecipes kitchen \<and>
   db_fridgeItems restockedKitchen \<noteq> db_fridgeItems kitchen \<and>
   getSuggestions restockedKitchen ''ann'' = getSuggestions kitchen ''ann''"
proof -
  have h1: "set (map fi_ingredientId (findFridgeItems kitchen ''ann'')) =
     set (map fi_ingredientId (findFridgeItems restockedKitchen ''ann''))"
    by (simp add: restockedKitchen_def findFridgeItems_def kitchen_def mkFridgeItem_def)
  have h2: "db_recipes restockedKitchen = db_recipes kitchen"
    by (simp add: restockedKitchen_def)
  have h3: "db_favoriteRecipes restockedKitchen = db_favoriteRecipes kitchen"
    by (simp add: restockedKitchen_def)
  have "db_fridgeItems restockedKitchen \<noteq> db_fridgeItems kitchen"
    by (simp add: restockedKitchen_def kitchen_def mkFridgeItem_def)
  with quantities_do_not_matter [OF h1 h2 h3] h1 h2 h3 show ?thesis by simp
qed

section \<open>Favorites and the number of suggestions\<close>

text \<open>
  Claim C10. With a non-empty inventory, the \<^verbatim>\<open>suggestions\<close> field holds at most
  \<open>max (10 - favoritesCount) 0\<close> entries, where \<open>favoritesCount\<close> is the number of
  catalog recipes marked by the user; it is empty as soon as there are 10 of them; and it
  holds no favorite.
\<close>

theorem favorites_use_up_the_slots:
  assumes "findFridgeItems db userId \<noteq> []"
  shows "length (resp_suggestions (getSuggestions db userId))
           \<le> nat (max (10 - int (length (filter (\<lambda>r. rc_id r \<in> favoriteIdsSetOf db userId)
                                                 (db_recipes db)))) 0) \<and>
         (10 \<le> length (filter (\<lambda>r. rc_id r \<in> favoriteIdsSetOf db userId) (db_recipes db))
            \<longrightarrow> resp_suggestions (getSuggestions db userId) = []) \<and>
         (\<forall>p\<in>set (resp_suggestions (getSuggestions db userId)).
            rp_id p \<notin> favoriteIdsSetOf db userId)"
proof -
  from assms obtain l where l: "handlerLocals db userId = Some l"
    using handlerLocals_None_iff [of db userId] by (cases "handlerLocals db userId") auto
  have n: "length (lc_favoriteRecipesPayload l) =
        length (filter (\<lambda>r. rc_id r \<in> favoriteIdsSetOf db userId) (db_recipes db))"
    using favorite_payload_ids [OF l, THEN arg_cong, of length] by simp
  have len: "length (resp_suggestions (getSuggestions db userId))
           \<le> nat (max (10 - int (length (filter (\<lambda>r. rc_id r \<in> favoriteIdsSetOf db userId)
                                                 (db_recipes db)))) 0)"
    using length_suggestionsOf [of "availableIngredientIdsOf db userId"
        "favoriteIdsSetOf db userId" "lc_favoriteRecipesPayload l"]
    by (simp add: getSuggestions_def l handlerLocals_SomeD(2) [OF l] n [symmetric])
  moreover have "resp_suggestions (getSuggestions db userId) = []"
    if "10 \<le> length (filter (\<lambda>r. rc_id r \<in> favoriteIdsSetOf db userId) (db_recipes db))"
    using len that by simp
  moreover have "\<forall>p\<in>set (resp_suggestions (getSuggestions db userId)).
            rp_id p \<notin> favoriteIdsSetOf db userId"
    using suggestion_ids_not_favorite [OF l] by (simp add: getSuggestions_def l)
  ultimately show ?thesis by blast
qed

theorem favorites_use_up_the_slots_witness:
  "findFridgeItems pantry ''carol'' \<noteq> [] \<and>
   10 \<le> length (filter (\<lambda>r. rc_id r \<in> favoriteIdsSetOf pantry ''carol'') (db_recipes pantry)) \<and>
   mkRecipe ''r12'' [''rice''] \<in> set (db_recipes pantry) \<and>
   ''r12'' \<notin> favoriteIdsSetOf pantry ''carol'' \<and>
   0 < availableCount (availableIngredientIdsOf pantry ''carol'')
         (rc_ingredients (mkRecipe ''r12'' [''rice''])) \<and>
   resp_suggestions (getSuggestions pantry ''carol'') = []"
proof -
  have n: "10 \<le> length (filter (\<lambda>r. rc_id r \<in> favoriteIdsSetOf pantry ''carol'')
                               (db_recipes pantry))"
    using pantry_favorite_recipes(1) [THEN arg_cong, of length] by (simp add: riceDishes_def)
  have m: "mkRecipe ''r12'' [''rice''] \<in> set (db_recipes pantry)"
    by (simp add: pantry_def riceDishes_def)
  have f: "''r12'' \<notin> favoriteIdsSetOf pantry ''carol''"
    by (simp add: pantry_favorites riceDishes_def)
  have a: "0 < availableCount (availableIngredientIdsOf pantry ''carol'')
         (rc_ingredients (mkRecipe ''r12'' [''rice'']))"
    using pantry_positive [OF m] by (simp add: pantry_available)
  from favorites_use_up_the_slots [OF pantry_fridge(2)] n
  have "resp_suggestions (getSuggestions pantry ''carol'') = []" by blast
  with pantry_fridge(2) n m f a show ?thesis by simp
qed

end
